theory Spec2Isabelle
  imports Complex_Main "HOL-Library.Monad_Syntax"
begin

section \<open>Data model (models.py)\<close>

text \<open>
  Monetary amounts, durations and word timestamps are Python floats in the source. They are
  modelled as exact rationals: sums and comparisons are the mathematical ones, IEEE rounding,
  infinities and NaN are outside the model.
\<close>

datatype JobStatus =
  PENDING | DOWNLOADING | CONVERTING | TRANSCRIBING | FORMATTING | COMPLETED | FAILED | SKIPPED

datatype FailureReason =
  INVALID_URL | ACCESS_DENIED | DOWNLOAD_FAILED | CONVERT_FAILED | TRANSCRIPTION_FAILED
  | FORMAT_FAILED | BUDGET_EXCEEDED | UNKNOWN_ERROR

datatype OutputFormats = TXT | JSON | SRT | VTT

datatype py_error = ValueError | TypeError | AttributeError | OSError

text \<open>
  A word of the transcript as the transcription adapter builds it: a dict with the keys
  \<open>text\<close>, \<open>start\<close>, \<open>end\<close>. A timestamp is \<open>None\<close> when the key is missing or
  holds Python's \<open>None\<close>.
\<close>

record word =
  word_text :: string
  word_start :: "rat option"
  word_end :: "rat option"

text \<open>A caption segment: the dict with keys \<open>start\<close>, \<open>end\<close>, \<open>text\<close>.\<close>

record segment =
  seg_start :: rat
  seg_end :: rat
  seg_text :: string

section \<open>Caption grouping (formatters/output_formatters.py)\<close>

text \<open>
  Python truthiness of an optional number, as in \<open>not word.get('start')\<close>: \<open>None\<close> and
  \<open>0\<close> are both falsy.
\<close>

definition truthy :: "rat option \<Rightarrow> bool" where
  "truthy t = (case t of None \<Rightarrow> False | Some x \<Rightarrow> x \<noteq> 0)"

text \<open>
  Reading a timestamp that the loop has already tested to be truthy. The \<open>None\<close> branch is
  never taken on such a value; it is written out so that the function is total.
\<close>

definition num :: "rat option \<Rightarrow> rat" where
  "num t = (case t of None \<Rightarrow> 0 | Some x \<Rightarrow> x)"

text \<open>\<open>' '.join(strs)\<close>\<close>

fun join_space :: "string list \<Rightarrow> string" where
  "join_space [] = []"
| "join_space [s] = s"
| "join_space (s # t # ss) = s @ '' '' @ join_space (t # ss)"

text \<open>
  The dict appended to \<open>segments\<close>: start of the segment, end of its last word, the words'
  texts joined by single spaces.
\<close>

definition make_segment :: "rat \<Rightarrow> word list \<Rightarrow> segment" where
  "make_segment current_start current_segment =
     \<lparr>seg_start = current_start,
      seg_end = num (word_end (last current_segment)),
      seg_text = join_space (map word_text current_segment)\<rparr>"

text \<open>
  The loop of \<open>SRTFormatter._group_words_into_segments\<close>. The state is
  \<open>(segments, current_segment, current_start)\<close>; \<open>current_start\<close> is only read while
  \<open>current_segment\<close> is non-empty, so Python's initial \<open>None\<close> is represented by \<open>0\<close>.
\<close>

fun srt_loop :: "rat \<Rightarrow> nat \<Rightarrow> word list \<Rightarrow> segment list \<times> word list \<times> rat
    \<Rightarrow> segment list \<times> word list \<times> rat" where
  "srt_loop max_duration max_words [] st = st"
| "srt_loop max_duration max_words (w # ws) (segments, current_segment, current_start) =
     (if \<not> truthy (word_start w) \<or> \<not> truthy (word_end w) then
        srt_loop max_duration max_words ws (segments, current_segment, current_start)
      else if current_segment = [] then
        srt_loop max_duration max_words ws (segments, [w], num (word_start w))
      else if num (word_end w) - current_start > max_duration
              \<or> length current_segment \<ge> max_words then
        srt_loop max_duration max_words ws
          (segments @ [make_segment current_start current_segment], [w], num (word_start w))
      else
        srt_loop max_duration max_words ws (segments, current_segment @ [w], current_start))"

text \<open>The final \<open>if current_segment: segments.append(...)\<close> and the return.\<close>

definition finish_segments :: "segment list \<times> word list \<times> rat \<Rightarrow> segment list" where
  "finish_segments st =
     (case st of (segments, current_segment, current_start) \<Rightarrow>
        if current_segment \<noteq> [] then segments @ [make_segment current_start current_segment]
        else segments)"

definition srt_group_words_into_segments :: "word list \<Rightarrow> segment list" where
  "srt_group_words_into_segments words = finish_segments (srt_loop 8 10 words ([], [], 0))"

text \<open>
  The loop of \<open>VTTFormatter._group_words_into_segments\<close>: the same, without the word count.
\<close>

fun vtt_loop :: "rat \<Rightarrow> word list \<Rightarrow> segment list \<times> word list \<times> rat
    \<Rightarrow> segment list \<times> word list \<times> rat" where
  "vtt_loop max_duration [] st = st"
| "vtt_loop max_duration (w # ws) (segments, current_segment, current_start) =
     (if \<not> truthy (word_start w) \<or> \<not> truthy (word_end w) then
        vtt_loop max_duration ws (segments, current_segment, current_start)
      else if current_segment = [] then
        vtt_loop max_duration ws (segments, [w], num (word_start w))
      else if num (word_end w) - current_start > max_duration then
        vtt_loop max_duration ws
          (segments @ [make_segment current_start current_segment], [w], num (word_start w))
      else
        vtt_loop max_duration ws (segments, current_segment @ [w], current_start))"

definition vtt_group_words_into_segments :: "word list \<Rightarrow> segment list" where
  "vtt_group_words_into_segments words = finish_segments (vtt_loop 8 words ([], [], 0))"

text \<open>
  The segment that a group of consecutive words stands for, and the bound a group obeys:
  a single word, or a span of at most \<open>max_duration\<close> from the start of its first word to
  the end of its last.
\<close>

definition segment_of :: "word list \<Rightarrow> segment" where
  "segment_of g = make_segment (num (word_start (hd g))) g"

definition group_bounded :: "rat \<Rightarrow> word list \<Rightarrow> bool" where
  "group_bounded max_duration g =
     (length g = 1 \<or> num (word_end (last g)) - num (word_start (hd g)) \<le> max_duration)"

definition long_word :: word where
  "long_word = \<lparr>word_text = ''hello'', word_start = Some 1, word_end = Some 10\<rparr>"

definition sample_words :: "word list" where
  "sample_words =
     [\<lparr>word_text = ''a'', word_start = Some 1, word_end = Some 2\<rparr>,
      \<lparr>word_text = ''b'', word_start = Some 3, word_end = Some 4\<rparr>,
      \<lparr>word_text = ''c'', word_start = Some 11, word_end = Some 12\<rparr>]"

section \<open>Input lists (core/manifest.py)\<close>

text \<open>
  \<open>str.isspace\<close> on the code points a \<open>char\<close> can hold: tab, line feed, vertical tab,
  form feed, carriage return, the separators \<open>0x1C\<close>-\<open>0x1F\<close>, space, \<open>0x85\<close> and
  \<open>0xA0\<close>. Whitespace beyond code point 255 is outside the model.
\<close>

definition py_isspace :: "char \<Rightarrow> bool" where
  "py_isspace c = (c \<in> {CHR 0x09, CHR 0x0A, CHR 0x0B, CHR 0x0C, CHR 0x0D, CHR 0x1C, CHR 0x1D,
                          CHR 0x1E, CHR 0x1F, CHR 0x20, CHR 0x85, CHR 0xA0})"

text \<open>\<open>s.strip()\<close> and \<open>s.startswith(p)\<close>\<close>

definition strip :: "string \<Rightarrow> string" where
  "strip s = rev (dropWhile py_isspace (rev (dropWhile py_isspace s)))"

definition startswith :: "string \<Rightarrow> string \<Rightarrow> bool" where
  "startswith p s = (take (length p) s = p)"

datatype log_entry = LogInfo nat | LogWarning nat string | LogError py_error

text \<open>
  The loop of \<open>_load_urls_from_txt\<close> over the lines of the file, \<open>line_num\<close> counting from 1.
  The logged warnings are collected next to the URLs.
\<close>

fun txt_loop :: "nat \<Rightarrow> string list \<Rightarrow> string list \<times> log_entry list
    \<Rightarrow> string list \<times> log_entry list" where
  "txt_loop line_num [] (urls, logged) = (urls, logged)"
| "txt_loop line_num (l # ls) (urls, logged) =
     (let line = strip l in
      if line \<noteq> [] \<and> \<not> startswith ''#'' line then
        (if startswith ''http'' line then
           txt_loop (Suc line_num) ls (urls @ [line], logged)
         else
           txt_loop (Suc line_num) ls (urls, logged @ [LogWarning line_num line]))
      else txt_loop (Suc line_num) ls (urls, logged))"

definition load_urls_from_txt :: "string list \<Rightarrow> string list \<times> log_entry list" where
  "load_urls_from_txt lines = txt_loop 1 lines ([], [])"

text \<open>
  A CSV file as \<open>csv.DictReader\<close> presents it: \<open>fieldnames\<close> (\<open>None\<close> for an empty file) and
  one dict per row, from column name to cell. A cell is \<open>None\<close> when the row is shorter than
  the header (the reader's \<open>restval\<close>).
\<close>

type_synonym csv_row = "(string \<times> string option) list"

text \<open>
  \<open>row.get('url', '')\<close>: the cell under \<open>url\<close>, the empty string when the row has no
  such key, \<open>None\<close> when the cell is \<open>None\<close>.
\<close>

definition row_url :: "csv_row \<Rightarrow> string option" where
  "row_url row = (case map_of row ''url'' of None \<Rightarrow> Some [] | Some cell \<Rightarrow> cell)"

text \<open>
  The loop of \<open>_load_urls_from_csv\<close>, \<open>row_num\<close> counting from 2. Calling \<open>strip\<close> on a
  \<open>None\<close> cell raises \<open>AttributeError\<close>.
\<close>

fun csv_loop :: "nat \<Rightarrow> csv_row list \<Rightarrow> string list \<times> log_entry list
    \<Rightarrow> py_error + string list \<times> log_entry list" where
  "csv_loop row_num [] (urls, logged) = Inr (urls, logged)"
| "csv_loop row_num (row # rows) (urls, logged) =
     (case row_url row of
        None \<Rightarrow> Inl AttributeError
      | Some cell \<Rightarrow>
          (let url = strip cell in
           if url \<noteq> [] \<and> startswith ''http'' url then
             csv_loop (Suc row_num) rows (urls @ [url], logged)
           else if url \<noteq> [] then
             csv_loop (Suc row_num) rows (urls, logged @ [LogWarning row_num url])
           else csv_loop (Suc row_num) rows (urls, logged)))"

definition load_urls_from_csv :: "string list option \<Rightarrow> csv_row list
    \<Rightarrow> py_error + string list \<times> log_entry list" where
  "load_urls_from_csv fieldnames rows =
     (case fieldnames of
        None \<Rightarrow> Inl TypeError
      | Some names \<Rightarrow>
          if ''url'' \<notin> set names then Inl ValueError
          else csv_loop 2 rows ([], []))"

text \<open>
  The input file as the loader sees it: the lower-cased suffix of its path, whether it can be
  opened and decoded, its lines, and the \<open>csv.DictReader\<close> view of the same content.
\<close>

record input_file =
  suffix_lower :: string
  readable :: bool
  file_lines :: "string list"
  csv_fieldnames :: "string list option"
  csv_rows :: "csv_row list"

text \<open>
  \<open>load_urls_from_file\<close>: dispatch on the suffix; every exception of the two loaders (and of
  opening the file) is caught, logged as an error and turned into the empty list.
\<close>

definition load_urls_from_file :: "input_file \<Rightarrow> string list \<times> log_entry list" where
  "load_urls_from_file f =
     (if \<not> readable f then ([], [LogError OSError])
      else if suffix_lower f = ''.csv'' then
        (case load_urls_from_csv (csv_fieldnames f) (csv_rows f) of
           Inl e \<Rightarrow> ([], [LogError e])
         | Inr (urls, logged) \<Rightarrow> (urls, logged @ [LogInfo (length urls)]))
      else
        (case load_urls_from_txt (file_lines f) of
           (urls, logged) \<Rightarrow> (urls, logged @ [LogInfo (length urls)])))"









section \<open>Jobs, manifests and options (models.py, config.py)\<close>

text \<open>
  The records keep the fields the orchestration reads or writes. Timestamps
  (\<open>created_at\<close>, \<open>started_at\<close>, \<open>completed_at\<close>, \<open>updated_at\<close>), file paths and the
  descriptive metadata fields are left out: no branch of the modelled functions depends on them.
\<close>

record VideoMetadata =
  title :: "string option"
  platform :: "string option"
  duration :: "rat option"

text \<open>The transcript dict the transcription adapter returns (keys \<open>id\<close>, \<open>text\<close>, \<open>words\<close>).\<close>

record transcript_dict =
  td_id :: "string option"
  td_text :: "string option"
  td_words :: "word list"

record TranscriptionJob =
  job_id :: string
  url :: string
  status :: JobStatus
  video_metadata :: "VideoMetadata option"
  assemblyai_transcript_id :: "string option"
  transcript_text :: "string option"
  transcript_data :: "transcript_dict option"
  error_message :: "string option"
  failure_reason :: "FailureReason option"
  retry_count :: int
  estimated_cost :: "rat option"
  actual_cost :: "rat option"

record TranscriptionManifest =
  manifest_id :: string
  output_formats :: "string list"
  jobs :: "TranscriptionJob list"
  total_jobs :: nat
  completed_jobs :: nat
  failed_jobs :: nat
  total_estimated_cost :: rat
  total_actual_cost :: rat
  budget_cap :: rat

record ProcessingOptions =
  formats :: "OutputFormats list"
  enable_summary :: bool
  delete_temp :: bool
  dry_run :: bool
  options_budget_cap :: "rat option"

record Config =
  retry_limit :: int
  cap_budget_usd :: rat

text \<open>\<open>TranscriptionManifest.update_stats\<close>; \<open>x or 0\<close> is \<open>num x\<close>.\<close>

definition update_stats :: "TranscriptionManifest \<Rightarrow> TranscriptionManifest" where
  "update_stats m =
     m\<lparr>total_jobs := length (jobs m),
       completed_jobs := length (filter (\<lambda>j. status j = COMPLETED) (jobs m)),
       failed_jobs := length (filter (\<lambda>j. status j = FAILED) (jobs m)),
       total_estimated_cost := sum_list (map (\<lambda>j. num (estimated_cost j)) (jobs m)),
       total_actual_cost := sum_list (map (\<lambda>j. num (actual_cost j)) (jobs m))\<rparr>"

text \<open>
  \<open>TranscriptionManifest.get_retryable_jobs\<close>. The Python list holds references to job
  objects of \<open>manifest.jobs\<close>; the model holds their positions.
\<close>

definition get_retryable_jobs :: "Config \<Rightarrow> TranscriptionManifest \<Rightarrow> nat list" where
  "get_retryable_jobs cfg m =
     filter (\<lambda>i. status (jobs m ! i) = FAILED \<and> retry_count (jobs m ! i) < retry_limit cfg)
       [0..<length (jobs m)]"

definition format_value :: "OutputFormats \<Rightarrow> string" where
  "format_value fmt = (case fmt of TXT \<Rightarrow> ''txt'' | JSON \<Rightarrow> ''json'' | SRT \<Rightarrow> ''srt'' | VTT \<Rightarrow> ''vtt'')"

text \<open>\<open>OutputFormats(s)\<close>: the member with that value, \<open>ValueError\<close> (here \<open>None\<close>) otherwise.\<close>

definition parse_format :: "string \<Rightarrow> OutputFormats option" where
  "parse_format s =
     (if s = ''txt'' then Some TXT else if s = ''json'' then Some JSON
      else if s = ''srt'' then Some SRT else if s = ''vtt'' then Some VTT else None)"

fun parse_formats :: "string list \<Rightarrow> OutputFormats list option" where
  "parse_formats [] = Some []"
| "parse_formats (s # ss) =
     (case parse_format s of
        None \<Rightarrow> None
      | Some fmt \<Rightarrow> (case parse_formats ss of None \<Rightarrow> None | Some fmts \<Rightarrow> Some (fmt # fmts)))"

section \<open>Cost model (adapters, core/processor.py)\<close>

definition estimate_transcription_cost :: "rat \<Rightarrow> rat" where
  "estimate_transcription_cost duration_seconds = duration_seconds * (37 / 100000)"

definition estimate_conversion_cost :: "rat \<Rightarrow> rat" where
  "estimate_conversion_cost duration_seconds = 1 / 100 + duration_seconds * (1 / 1000)"

definition estimate_job_cost :: "rat \<Rightarrow> rat" where
  "estimate_job_cost duration_seconds =
     estimate_transcription_cost duration_seconds + estimate_conversion_cost duration_seconds"

definition calculate_actual_cost :: "rat \<Rightarrow> rat" where
  "calculate_actual_cost duration_seconds = estimate_job_cost duration_seconds"

section \<open>The per-job pipeline (core/processor.py)\<close>

text \<open>
  What the outside world answers during one pass of \<open>_process_single_job\<close>: the results of
  the three adapters with the tuple types they declare, whether creating the temp directory
  works, whether each formatter manages to write its file, and whether the manifest can be
  written.
\<close>

record job_env =
  env_metadata :: "VideoMetadata option"
  env_download :: "string option \<times> FailureReason option \<times> string option"
  env_mkdir_ok :: bool
  env_convert :: "bool \<times> FailureReason option \<times> string option"
  env_transcribe :: "bool \<times> transcript_dict option \<times> FailureReason option \<times> string option"
  env_write_ok :: "OutputFormats \<Rightarrow> bool"
  env_save_ok :: bool

text \<open>
  The calls that leave the process, in the order they are made, and each write of the
  manifest with the manifest as written.
\<close>

datatype event =
  GetVideoMetadata string
  | DownloadVideo string string
  | ConvertMp4ToMp3 string
  | TranscribeAudio string
  | SaveManifest TranscriptionManifest

record run_state =
  manifest :: TranscriptionManifest
  trace :: "event list"

text \<open>\<open>not s\<close> for an optional string: \<open>None\<close> and the empty string are falsy.\<close>

definition str_falsy :: "string option \<Rightarrow> bool" where
  "str_falsy s = (case s of None \<Rightarrow> True | Some t \<Rightarrow> t = [])"

text \<open>\<open>not job.transcript_data or not job.transcript_data.get('words')\<close>\<close>

definition no_words :: "TranscriptionJob \<Rightarrow> bool" where
  "no_words job = (case transcript_data job of None \<Rightarrow> True | Some d \<Rightarrow> td_words d = [])"

text \<open>
  The four \<open>format_transcript\<close> methods. Each returns \<open>False\<close> when the job has nothing to
  render and otherwise whether writing the file went through (any exception is caught inside
  the method and becomes \<open>False\<close>).
\<close>

definition text_formatter :: "job_env \<Rightarrow> TranscriptionJob \<Rightarrow> bool" where
  "text_formatter env job =
     (if str_falsy (transcript_text job) then False else env_write_ok env TXT)"

definition json_formatter :: "job_env \<Rightarrow> TranscriptionJob \<Rightarrow> bool" where
  "json_formatter env job =
     (if transcript_data job = None \<and> str_falsy (transcript_text job) then False
      else env_write_ok env JSON)"

definition srt_formatter :: "job_env \<Rightarrow> TranscriptionJob \<Rightarrow> bool" where
  "srt_formatter env job =
     (if no_words job then
        (if str_falsy (transcript_text job) then False else env_write_ok env SRT)
      else env_write_ok env SRT)"

definition vtt_formatter :: "job_env \<Rightarrow> TranscriptionJob \<Rightarrow> bool" where
  "vtt_formatter env job =
     (if no_words job then
        (if str_falsy (transcript_text job) then False else env_write_ok env VTT)
      else env_write_ok env VTT)"

text \<open>The dict \<open>self.formatters\<close> of the processor.\<close>

definition formatters :: "OutputFormats \<Rightarrow> (job_env \<Rightarrow> TranscriptionJob \<Rightarrow> bool) option" where
  "formatters fmt =
     (case fmt of TXT \<Rightarrow> Some text_formatter | JSON \<Rightarrow> Some json_formatter
      | SRT \<Rightarrow> Some srt_formatter | VTT \<Rightarrow> Some vtt_formatter)"

text \<open>
  The loop of \<open>_format_job_outputs\<close> with its flag \<open>success\<close>. The sidecar metadata file
  written before the loop never raises and its result is ignored.
\<close>

fun format_loop :: "job_env \<Rightarrow> TranscriptionJob \<Rightarrow> OutputFormats list \<Rightarrow> bool \<Rightarrow> bool" where
  "format_loop env job [] success = success"
| "format_loop env job (format_type # rest) success =
     (case formatters format_type of
        Some formatter \<Rightarrow>
          if \<not> formatter env job then format_loop env job rest False
          else format_loop env job rest success
      | None \<Rightarrow> format_loop env job rest False)"

definition format_job_outputs :: "job_env \<Rightarrow> TranscriptionJob \<Rightarrow> ProcessingOptions \<Rightarrow> bool" where
  "format_job_outputs env job options = format_loop env job (formats options) True"

text \<open>
  \<open>_handle_job_failure\<close>: the job is marked first; the log line then reads
  \<open>failure_reason.value\<close>, which raises \<open>AttributeError\<close> when the adapter gave no reason.
  The result is the job as mutated and the exception, if any.
\<close>

definition handle_job_failure :: "TranscriptionJob \<Rightarrow> FailureReason option \<Rightarrow> string option
    \<Rightarrow> TranscriptionJob \<times> py_error option" where
  "handle_job_failure job reason error_msg =
     (job\<lparr>status := FAILED, failure_reason := reason, error_message := error_msg\<rparr>,
      case reason of None \<Rightarrow> Some AttributeError | Some r \<Rightarrow> None)"

text \<open>How the body of the \<open>try\<close> block ends.\<close>

datatype outcome = Returned | ReachedUpdate | Raised py_error

definition fail_with :: "TranscriptionJob \<Rightarrow> FailureReason option \<Rightarrow> string option \<Rightarrow> event list
    \<Rightarrow> TranscriptionJob \<times> event list \<times> outcome" where
  "fail_with job reason error_msg evs =
     (case handle_job_failure job reason error_msg of
        (job', None) \<Rightarrow> (job', evs, Returned)
      | (job', Some e) \<Rightarrow> (job', evs, Raised e))"

definition str_of_error :: "py_error \<Rightarrow> string" where
  "str_of_error e =
     (case e of ValueError \<Rightarrow> ''ValueError'' | TypeError \<Rightarrow> ''TypeError''
      | AttributeError \<Rightarrow> ''AttributeError'' | OSError \<Rightarrow> ''OSError'')"

text \<open>Step 1: the metadata probe and the early estimate (\<open>metadata.duration or 120\<close>).\<close>

definition with_metadata :: "job_env \<Rightarrow> TranscriptionJob \<Rightarrow> TranscriptionJob" where
  "with_metadata env job =
     (case env_metadata env of
        None \<Rightarrow> job
      | Some metadata \<Rightarrow>
          job\<lparr>video_metadata := Some metadata,
              estimated_cost := Some (estimate_job_cost
                (if truthy (duration metadata) then num (duration metadata) else 120))\<rparr>)"

text \<open>
  The assignments between a successful transcription and the formatting step: transcript
  fields, the actual cost (from the duration when it is known, the earlier estimate
  otherwise), status \<open>FORMATTING\<close>.
\<close>

definition transcribed :: "TranscriptionJob \<Rightarrow> transcript_dict option \<Rightarrow> TranscriptionJob" where
  "transcribed job td =
     job\<lparr>transcript_data := td,
         transcript_text := (case td of None \<Rightarrow> Some [] | Some d \<Rightarrow> td_text d),
         assemblyai_transcript_id := (case td of None \<Rightarrow> None | Some d \<Rightarrow> td_id d),
         actual_cost :=
           (case video_metadata job of
              None \<Rightarrow> estimated_cost job
            | Some metadata \<Rightarrow>
                if truthy (duration metadata)
                then Some (calculate_actual_cost (num (duration metadata)))
                else estimated_cost job),
         status := FORMATTING\<rparr>"

text \<open>
  The body of the \<open>try\<close> block of \<open>_process_single_job\<close> up to the comment
  \<open># Update manifest\<close>: the job as mutated, the external calls made, and how the body ended.
\<close>

definition try_body :: "job_env \<Rightarrow> ProcessingOptions \<Rightarrow> TranscriptionJob
    \<Rightarrow> TranscriptionJob \<times> event list \<times> outcome" where
  "try_body env options job0 =
     (let job2 = with_metadata env (job0\<lparr>status := DOWNLOADING\<rparr>);
          ev2 = [GetVideoMetadata (url job0), DownloadVideo (url job0) (job_id job0)]
      in case env_download env of (video_path, reason, error_msg) \<Rightarrow>
        if video_path = None then fail_with job2 reason error_msg ev2
        else
          (let job3 = job2\<lparr>status := CONVERTING\<rparr> in
           if \<not> env_mkdir_ok env then (job3, ev2, Raised OSError)
           else
             (let ev3 = ev2 @ [ConvertMp4ToMp3 (job_id job0)]
              in case env_convert env of (success, reason, error_msg) \<Rightarrow>
                if \<not> success then fail_with job3 reason error_msg ev3
                else
                  (let job4 = job3\<lparr>status := TRANSCRIBING\<rparr>;
                       ev4 = ev3 @ [TranscribeAudio (job_id job0)]
                   in case env_transcribe env of
                     (success, td, reason, error_msg) \<Rightarrow>
                       if \<not> success then fail_with job4 reason error_msg ev4
                       else
                         (let job5 = transcribed job4 td in
                          if \<not> format_job_outputs env job5 options then
                            fail_with job5 (Some FORMAT_FAILED)
                              (Some ''Failed to format outputs'') ev4
                          else (job5\<lparr>status := COMPLETED\<rparr>, ev4, ReachedUpdate))))))"

text \<open>The job object at position \<open>i\<close> of \<open>manifest.jobs\<close> after its mutation.\<close>

definition set_job :: "nat \<Rightarrow> TranscriptionJob \<Rightarrow> run_state \<Rightarrow> run_state" where
  "set_job i job st = st\<lparr>manifest := (manifest st)\<lparr>jobs := (jobs (manifest st))[i := job]\<rparr>\<rparr>"

definition save_manifest :: "run_state \<Rightarrow> run_state" where
  "save_manifest st = st\<lparr>trace := trace st @ [SaveManifest (manifest st)]\<rparr>"

text \<open>
  \<open>_process_single_job\<close> on the job at position \<open>i\<close>. An early return after a failure leaves
  the manifest's aggregates as they were and writes nothing. On the success path the
  aggregates are recomputed and the manifest is written; when that write raises, the handler
  of the \<open>try\<close> block turns the job into a failed one. The handler is also where an
  exception of the body ends.
\<close>

definition process_single_job :: "job_env \<Rightarrow> ProcessingOptions \<Rightarrow> nat \<Rightarrow> run_state \<Rightarrow> run_state" where
  "process_single_job env options i st =
     (case try_body env options (jobs (manifest st) ! i) of (job, evs, how) \<Rightarrow>
        (let st1 = (set_job i job st)\<lparr>trace := trace st @ evs\<rparr> in
         case how of
           Returned \<Rightarrow> st1
         | Raised e \<Rightarrow>
             set_job i (fst (handle_job_failure job (Some UNKNOWN_ERROR) (Some (str_of_error e)))) st1
         | ReachedUpdate \<Rightarrow>
             (let st2 = st1\<lparr>manifest := update_stats (manifest st1)\<rparr> in
              if env_save_ok env then save_manifest st2
              else set_job i
                (fst (handle_job_failure job (Some UNKNOWN_ERROR) (Some (str_of_error OSError))))
                st2)))"

section \<open>The batch orchestrator (core/processor.py, core/manifest.py)\<close>

text \<open>\<open>xs.index(x)\<close>: the first position holding an equal element, \<open>None\<close> for \<open>ValueError\<close>.\<close>

primrec list_index :: "'a list \<Rightarrow> 'a \<Rightarrow> nat option" where
  "list_index [] x = None"
| "list_index (y # ys) x = (if y = x then Some 0 else map_option Suc (list_index ys x))"

definition mark_skipped :: "TranscriptionJob \<Rightarrow> TranscriptionJob" where
  "mark_skipped job =
     (if status job = PENDING then
        job\<lparr>status := SKIPPED, failure_reason := Some BUDGET_EXCEEDED,
            error_message := Some ''Skipped due to budget cap''\<rparr>
      else job)"

definition mark_remaining_jobs_skipped :: "TranscriptionManifest \<Rightarrow> TranscriptionJob
    \<Rightarrow> py_error + TranscriptionManifest" where
  "mark_remaining_jobs_skipped m current_job =
     (case list_index (jobs m) current_job of
        None \<Rightarrow> Inl ValueError
      | Some current_index \<Rightarrow>
          Inr (m\<lparr>jobs := take current_index (jobs m)
                          @ map mark_skipped (drop current_index (jobs m))\<rparr>))"

text \<open>
  The loop \<open>for job in manifest.jobs\<close> of \<open>process_batch\<close>, over the positions still to
  visit. Comparing a float with \<open>None\<close> raises \<open>TypeError\<close>.
\<close>

fun batch_loop :: "(nat \<Rightarrow> job_env) \<Rightarrow> ProcessingOptions \<Rightarrow> nat list \<Rightarrow> run_state
    \<Rightarrow> py_error + run_state" where
  "batch_loop env options [] st = Inr st"
| "batch_loop env options (i # rest) st =
     (case options_budget_cap options of
        None \<Rightarrow> Inl TypeError
      | Some cap \<Rightarrow>
          if total_actual_cost (manifest st) \<ge> cap then
            (case mark_remaining_jobs_skipped (manifest st) (jobs (manifest st) ! i) of
               Inl e \<Rightarrow> Inl e
             | Inr m \<Rightarrow> Inr (st\<lparr>manifest := m\<rparr>))
          else batch_loop env options rest (process_single_job (env i) options i st))"

text \<open>\<open>ManifestManager.create_manifest\<close>; \<open>budget_cap or config.cap_budget_usd\<close>.\<close>

definition create_manifest :: "Config \<Rightarrow> string \<Rightarrow> string list \<Rightarrow> rat option
    \<Rightarrow> TranscriptionManifest" where
  "create_manifest cfg new_id fmts cap =
     \<lparr>manifest_id = new_id, output_formats = fmts, jobs = [],
      total_jobs = 0, completed_jobs = 0, failed_jobs = 0,
      total_estimated_cost = 0, total_actual_cost = 0,
      budget_cap = (if truthy cap then num cap else cap_budget_usd cfg)\<rparr>"

text \<open>Decimal digits and the format \<open>{i:03d}\<close>.\<close>

fun digits :: "nat \<Rightarrow> string" where
  "digits n =
     (if n < 10 then [''0123456789'' ! n]
      else digits (n div 10) @ [''0123456789'' ! (n mod 10)])"

definition pad3 :: "nat \<Rightarrow> string" where
  "pad3 n = replicate (3 - length (digits n)) (CHR ''0'') @ digits n"

definition new_job :: "string \<Rightarrow> string \<Rightarrow> TranscriptionJob" where
  "new_job new_id new_url =
     \<lparr>job_id = new_id, url = new_url, status = PENDING, video_metadata = None,
      assemblyai_transcript_id = None, transcript_text = None, transcript_data = None,
      error_message = None, failure_reason = None, retry_count = 0,
      estimated_cost = None, actual_cost = None\<rparr>"

definition populate_jobs :: "TranscriptionManifest \<Rightarrow> string list \<Rightarrow> TranscriptionManifest" where
  "populate_jobs m urls =
     update_stats (m\<lparr>jobs := jobs m
       @ map (\<lambda>(i, u). new_job (manifest_id m @ ''_job_'' @ pad3 i) u) (enumerate 1 urls)\<rparr>)"

text \<open>\<open>_perform_dry_run\<close>: only the metadata probe is called.\<close>

definition dry_run_job :: "job_env \<Rightarrow> TranscriptionJob \<Rightarrow> TranscriptionJob" where
  "dry_run_job env job =
     (case env_metadata env of
        Some metadata \<Rightarrow>
          job\<lparr>video_metadata := Some metadata,
              estimated_cost := Some (estimate_job_cost
                (if truthy (duration metadata) then num (duration metadata) else 120)),
              status := PENDING\<rparr>
      | None \<Rightarrow> job\<lparr>estimated_cost := Some (estimate_job_cost 120), status := PENDING\<rparr>)"

definition perform_dry_run :: "(nat \<Rightarrow> job_env) \<Rightarrow> run_state \<Rightarrow> run_state" where
  "perform_dry_run env st =
     \<lparr>manifest = update_stats ((manifest st)\<lparr>jobs :=
          map (\<lambda>(i, job). dry_run_job (env i) job) (enumerate 0 (jobs (manifest st)))\<rparr>),
      trace = trace st @ map (\<lambda>job. GetVideoMetadata (url job)) (jobs (manifest st))\<rparr>"

text \<open>
  The surroundings of one batch run: the generated batch id, the input file, the answers
  for the job at each position, and whether the output directory and the first and the last
  write of the manifest work.
\<close>

record batch_env =
  batch_id :: string
  the_input :: input_file
  job_envs :: "nat \<Rightarrow> job_env"
  outdir_ok :: bool
  first_save_ok :: bool
  final_save_ok :: bool

text \<open>The state when the loop of \<open>process_batch\<close> starts: jobs populated, manifest written once.\<close>

definition initial_state :: "Config \<Rightarrow> batch_env \<Rightarrow> ProcessingOptions \<Rightarrow> run_state" where
  "initial_state cfg benv options =
     save_manifest
       \<lparr>manifest = populate_jobs
          (create_manifest cfg (batch_id benv) (map format_value (formats options))
             (options_budget_cap options))
          (fst (load_urls_from_file (the_input benv))),
        trace = []\<rparr>"

definition process_batch :: "Config \<Rightarrow> batch_env \<Rightarrow> ProcessingOptions \<Rightarrow> py_error + run_state" where
  "process_batch cfg benv options =
     (if fst (load_urls_from_file (the_input benv)) = [] then Inl ValueError
      else if \<not> outdir_ok benv then Inl OSError
      else if \<not> first_save_ok benv then Inl OSError
      else
        (let st0 = initial_state cfg benv options in
         if dry_run options then Inr (perform_dry_run (job_envs benv) st0)
         else
           (case batch_loop (job_envs benv) options [0..<length (jobs (manifest st0))] st0 of
              Inl e \<Rightarrow> Inl e
            | Inr st \<Rightarrow>
                if final_save_ok benv
                then Inr (save_manifest (st\<lparr>manifest := update_stats (manifest st)\<rparr>))
                else Inl OSError)))"

text \<open>
  The state in which the loop of \<open>process_batch\<close> arrives at position \<open>i\<close>, when it gets
  there: it starts at position 0 in the initial state, and goes from \<open>i\<close> to \<open>i + 1\<close> by
  processing job \<open>i\<close> when the budget check lets it through.
\<close>

fun state_before :: "(nat \<Rightarrow> job_env) \<Rightarrow> ProcessingOptions \<Rightarrow> rat \<Rightarrow> run_state \<Rightarrow> nat
    \<Rightarrow> run_state option" where
  "state_before env options cap st0 0 = Some st0"
| "state_before env options cap st0 (Suc i) =
     (case state_before env options cap st0 i of
        None \<Rightarrow> None
      | Some st \<Rightarrow>
          if i < length (jobs (manifest st)) \<and> \<not> cap \<le> total_actual_cost (manifest st)
          then Some (process_single_job (env i) options i st)
          else None)"

section \<open>Retry of failed jobs (core/processor.py)\<close>

definition reset_for_retry :: "TranscriptionJob \<Rightarrow> TranscriptionJob" where
  "reset_for_retry job =
     job\<lparr>retry_count := retry_count job + 1, status := PENDING,
         error_message := None, failure_reason := None\<rparr>"

text \<open>The loop \<open>for job in retryable_jobs\<close> of \<open>retry_failed_jobs\<close>.\<close>

fun retry_loop :: "(nat \<Rightarrow> job_env) \<Rightarrow> ProcessingOptions \<Rightarrow> rat \<Rightarrow> nat list \<Rightarrow> run_state
    \<Rightarrow> run_state" where
  "retry_loop env options budget [] st = st"
| "retry_loop env options budget (i # rest) st =
     (if total_actual_cost (manifest st) \<ge> budget then st
      else retry_loop env options budget rest
        (process_single_job (env i) options i
           (set_job i (reset_for_retry (jobs (manifest st) ! i)) st)))"

definition retry_options :: "OutputFormats list \<Rightarrow> rat \<Rightarrow> ProcessingOptions" where
  "retry_options fmts budget =
     \<lparr>formats = fmts, enable_summary = False, delete_temp = True, dry_run = False,
      options_budget_cap = Some budget\<rparr>"

text \<open>
  \<open>retry_failed_jobs\<close>; \<open>save_ok\<close> says whether the final write of the manifest works.
\<close>

definition retry_failed_jobs :: "Config \<Rightarrow> (nat \<Rightarrow> job_env) \<Rightarrow> bool \<Rightarrow> run_state \<Rightarrow> rat option
    \<Rightarrow> py_error + run_state" where
  "retry_failed_jobs cfg env save_ok st cap =
     (let retryable_jobs = get_retryable_jobs cfg (manifest st) in
      if retryable_jobs = [] then Inr st
      else
        (let budget = (if truthy cap then num cap else cap_budget_usd cfg) in
         case parse_formats (output_formats (manifest st)) of
           None \<Rightarrow> Inl ValueError
         | Some fmts \<Rightarrow>
             (let st1 = retry_loop env (retry_options fmts budget) budget retryable_jobs st;
                  st2 = st1\<lparr>manifest := update_stats (manifest st1)\<rparr>
              in if save_ok then Inr (save_manifest st2) else Inl OSError)))"

section \<open>Saving and loading the manifest (core/manifest.py, models.py)\<close>

text \<open>
  A JSON document as \<open>json.dump\<close> writes it and \<open>json.load\<close> reads it back: the file on disk
  is identified with the document. Integers and floats are kept apart, as Python's parser
  keeps them apart.
\<close>

datatype json =
  JNull | JBool bool | JInt int | JFloat rat | JStr string
  | JArr "json list" | JObj "(string \<times> json) list"

text \<open>The values of the two string enums.\<close>

definition status_value :: "JobStatus \<Rightarrow> string" where
  "status_value s =
     (case s of PENDING \<Rightarrow> ''pending'' | DOWNLOADING \<Rightarrow> ''downloading''
      | CONVERTING \<Rightarrow> ''converting'' | TRANSCRIBING \<Rightarrow> ''transcribing''
      | FORMATTING \<Rightarrow> ''formatting'' | COMPLETED \<Rightarrow> ''completed''
      | FAILED \<Rightarrow> ''failed'' | SKIPPED \<Rightarrow> ''skipped'')"

definition reason_value :: "FailureReason \<Rightarrow> string" where
  "reason_value r =
     (case r of INVALID_URL \<Rightarrow> ''invalid_url'' | ACCESS_DENIED \<Rightarrow> ''access_denied''
      | DOWNLOAD_FAILED \<Rightarrow> ''download_failed'' | CONVERT_FAILED \<Rightarrow> ''convert_failed''
      | TRANSCRIPTION_FAILED \<Rightarrow> ''transcription_failed'' | FORMAT_FAILED \<Rightarrow> ''format_failed''
      | BUDGET_EXCEEDED \<Rightarrow> ''budget_exceeded'' | UNKNOWN_ERROR \<Rightarrow> ''unknown_error'')"

text \<open>\<open>manifest.dict()\<close> written by \<open>json.dump\<close>, for the fields of the model.\<close>

definition opt_json :: "('a \<Rightarrow> json) \<Rightarrow> 'a option \<Rightarrow> json" where
  "opt_json enc x = (case x of None \<Rightarrow> JNull | Some v \<Rightarrow> enc v)"

definition word_json :: "word \<Rightarrow> json" where
  "word_json w =
     JObj [(''text'', JStr (word_text w)), (''start'', opt_json JFloat (word_start w)),
           (''end'', opt_json JFloat (word_end w))]"

definition transcript_json :: "transcript_dict \<Rightarrow> json" where
  "transcript_json d =
     JObj [(''id'', opt_json JStr (td_id d)), (''text'', opt_json JStr (td_text d)),
           (''words'', JArr (map word_json (td_words d)))]"

definition metadata_json :: "VideoMetadata \<Rightarrow> json" where
  "metadata_json md =
     JObj [(''title'', opt_json JStr (title md)), (''platform'', opt_json JStr (platform md)),
           (''duration'', opt_json JFloat (duration md))]"

definition job_json :: "TranscriptionJob \<Rightarrow> json" where
  "job_json job =
     JObj [(''id'', JStr (job_id job)), (''url'', JStr (url job)),
           (''status'', JStr (status_value (status job))),
           (''video_metadata'', opt_json metadata_json (video_metadata job)),
           (''assemblyai_transcript_id'', opt_json JStr (assemblyai_transcript_id job)),
           (''transcript_text'', opt_json JStr (transcript_text job)),
           (''transcript_data'', opt_json transcript_json (transcript_data job)),
           (''error_message'', opt_json JStr (error_message job)),
           (''failure_reason'', opt_json (\<lambda>r. JStr (reason_value r)) (failure_reason job)),
           (''retry_count'', JInt (retry_count job)),
           (''estimated_cost'', opt_json JFloat (estimated_cost job)),
           (''actual_cost'', opt_json JFloat (actual_cost job))]"

definition manifest_json :: "TranscriptionManifest \<Rightarrow> json" where
  "manifest_json m =
     JObj [(''id'', JStr (manifest_id m)),
           (''output_formats'', JArr (map JStr (output_formats m))),
           (''jobs'', JArr (map job_json (jobs m))),
           (''total_jobs'', JInt (int (total_jobs m))),
           (''completed_jobs'', JInt (int (completed_jobs m))),
           (''failed_jobs'', JInt (int (failed_jobs m))),
           (''total_estimated_cost'', JFloat (total_estimated_cost m)),
           (''total_actual_cost'', JFloat (total_actual_cost m)),
           (''budget_cap'', JFloat (budget_cap m))]"

text \<open>
  Reading the document back into the models, field by field. A value of the wrong shape is a
  validation error (\<open>None\<close>); a missing key takes the default the model declares, and is an
  error for a field without one.
\<close>

definition str_of_json :: "json \<Rightarrow> string option" where
  "str_of_json v = (case v of JStr s \<Rightarrow> Some s | _ \<Rightarrow> None)"

definition float_of_json :: "json \<Rightarrow> rat option" where
  "float_of_json v = (case v of JFloat r \<Rightarrow> Some r | JInt i \<Rightarrow> Some (of_int i) | _ \<Rightarrow> None)"

definition int_of_json :: "json \<Rightarrow> int option" where
  "int_of_json v = (case v of JInt i \<Rightarrow> Some i | _ \<Rightarrow> None)"

text \<open>The counters are recomputed right after loading; a stored negative count reads as 0.\<close>

definition count_of_json :: "json \<Rightarrow> nat option" where
  "count_of_json v = (case v of JInt i \<Rightarrow> Some (nat i) | _ \<Rightarrow> None)"

definition opt_of_json :: "(json \<Rightarrow> 'a option) \<Rightarrow> json \<Rightarrow> 'a option option" where
  "opt_of_json dec v = (case v of JNull \<Rightarrow> Some None | _ \<Rightarrow> map_option Some (dec v))"

definition list_of_json :: "(json \<Rightarrow> 'a option) \<Rightarrow> json \<Rightarrow> 'a list option" where
  "list_of_json dec v = (case v of JArr vs \<Rightarrow> those (map dec vs) | _ \<Rightarrow> None)"

definition status_of_json :: "json \<Rightarrow> JobStatus option" where
  "status_of_json v =
     (case v of
        JStr s \<Rightarrow>
          find (\<lambda>x. status_value x = s)
            [PENDING, DOWNLOADING, CONVERTING, TRANSCRIBING, FORMATTING, COMPLETED, FAILED, SKIPPED]
      | _ \<Rightarrow> None)"

definition reason_of_json :: "json \<Rightarrow> FailureReason option" where
  "reason_of_json v =
     (case v of
        JStr s \<Rightarrow>
          find (\<lambda>x. reason_value x = s)
            [INVALID_URL, ACCESS_DENIED, DOWNLOAD_FAILED, CONVERT_FAILED, TRANSCRIPTION_FAILED,
             FORMAT_FAILED, BUDGET_EXCEEDED, UNKNOWN_ERROR]
      | _ \<Rightarrow> None)"

definition required :: "string \<Rightarrow> (json \<Rightarrow> 'a option) \<Rightarrow> (string \<times> json) list \<Rightarrow> 'a option" where
  "required k dec kvs = (case map_of kvs k of None \<Rightarrow> None | Some v \<Rightarrow> dec v)"

definition optional :: "string \<Rightarrow> (json \<Rightarrow> 'a option) \<Rightarrow> 'a \<Rightarrow> (string \<times> json) list \<Rightarrow> 'a option" where
  "optional k dec dflt kvs = (case map_of kvs k of None \<Rightarrow> Some dflt | Some v \<Rightarrow> dec v)"

definition word_of_json :: "json \<Rightarrow> word option" where
  "word_of_json v =
     (case v of
        JObj kvs \<Rightarrow>
          do {
            t \<leftarrow> required ''text'' str_of_json kvs;
            s \<leftarrow> optional ''start'' (opt_of_json float_of_json) None kvs;
            e \<leftarrow> optional ''end'' (opt_of_json float_of_json) None kvs;
            Some \<lparr>word_text = t, word_start = s, word_end = e\<rparr>
          }
      | _ \<Rightarrow> None)"

definition transcript_of_json :: "json \<Rightarrow> transcript_dict option" where
  "transcript_of_json v =
     (case v of
        JObj kvs \<Rightarrow>
          do {
            i \<leftarrow> optional ''id'' (opt_of_json str_of_json) None kvs;
            t \<leftarrow> optional ''text'' (opt_of_json str_of_json) None kvs;
            ws \<leftarrow> optional ''words'' (list_of_json word_of_json) [] kvs;
            Some \<lparr>td_id = i, td_text = t, td_words = ws\<rparr>
          }
      | _ \<Rightarrow> None)"

definition metadata_of_json :: "json \<Rightarrow> VideoMetadata option" where
  "metadata_of_json v =
     (case v of
        JObj kvs \<Rightarrow>
          do {
            t \<leftarrow> optional ''title'' (opt_of_json str_of_json) None kvs;
            p \<leftarrow> optional ''platform'' (opt_of_json str_of_json) None kvs;
            d \<leftarrow> optional ''duration'' (opt_of_json float_of_json) None kvs;
            Some \<lparr>title = t, platform = p, duration = d\<rparr>
          }
      | _ \<Rightarrow> None)"

definition job_of_json :: "json \<Rightarrow> TranscriptionJob option" where
  "job_of_json v =
     (case v of
        JObj kvs \<Rightarrow>
          do {
            i \<leftarrow> required ''id'' str_of_json kvs;
            u \<leftarrow> required ''url'' str_of_json kvs;
            s \<leftarrow> optional ''status'' status_of_json PENDING kvs;
            md \<leftarrow> optional ''video_metadata'' (opt_of_json metadata_of_json) None kvs;
            ti \<leftarrow> optional ''assemblyai_transcript_id'' (opt_of_json str_of_json) None kvs;
            tt \<leftarrow> optional ''transcript_text'' (opt_of_json str_of_json) None kvs;
            td \<leftarrow> optional ''transcript_data'' (opt_of_json transcript_of_json) None kvs;
            em \<leftarrow> optional ''error_message'' (opt_of_json str_of_json) None kvs;
            fr \<leftarrow> optional ''failure_reason'' (opt_of_json reason_of_json) None kvs;
            rc \<leftarrow> optional ''retry_count'' int_of_json 0 kvs;
            ec \<leftarrow> optional ''estimated_cost'' (opt_of_json float_of_json) None kvs;
            ac \<leftarrow> optional ''actual_cost'' (opt_of_json float_of_json) None kvs;
            Some \<lparr>job_id = i, url = u, status = s, video_metadata = md,
                  assemblyai_transcript_id = ti, transcript_text = tt, transcript_data = td,
                  error_message = em, failure_reason = fr, retry_count = rc,
                  estimated_cost = ec, actual_cost = ac\<rparr>
          }
      | _ \<Rightarrow> None)"

definition manifest_of_json :: "json \<Rightarrow> TranscriptionManifest option" where
  "manifest_of_json v =
     (case v of
        JObj kvs \<Rightarrow>
          do {
            i \<leftarrow> required ''id'' str_of_json kvs;
            fs \<leftarrow> required ''output_formats'' (list_of_json str_of_json) kvs;
            js \<leftarrow> optional ''jobs'' (list_of_json job_of_json) [] kvs;
            tj \<leftarrow> optional ''total_jobs'' count_of_json 0 kvs;
            cj \<leftarrow> optional ''completed_jobs'' count_of_json 0 kvs;
            fj \<leftarrow> optional ''failed_jobs'' count_of_json 0 kvs;
            te \<leftarrow> optional ''total_estimated_cost'' float_of_json 0 kvs;
            ta \<leftarrow> optional ''total_actual_cost'' float_of_json 0 kvs;
            bc \<leftarrow> optional ''budget_cap'' float_of_json 20 kvs;
            Some \<lparr>manifest_id = i, output_formats = fs, jobs = js, total_jobs = tj,
                  completed_jobs = cj, failed_jobs = fj, total_estimated_cost = te,
                  total_actual_cost = ta, budget_cap = bc\<rparr>
          }
      | _ \<Rightarrow> None)"

text \<open>
  \<open>load_manifest\<close>: parse, then recompute the aggregates. A validation error is a
  \<open>ValueError\<close>, re-raised by the loader.
\<close>

definition load_manifest :: "json \<Rightarrow> py_error + TranscriptionManifest" where
  "load_manifest v =
     (case manifest_of_json v of
        None \<Rightarrow> Inl ValueError
      | Some m \<Rightarrow> Inr (update_stats m))"

section \<open>Auxiliary notions for the properties\<close>

text \<open>
  What \<open>_process_single_job\<close> leaves in the job object, read off its three exits: the early
  return, the exception handler, and the success path (whose manifest write may raise into
  the handler).
\<close>

definition after_try :: "job_env \<Rightarrow> TranscriptionJob \<times> event list \<times> outcome \<Rightarrow> TranscriptionJob" where
  "after_try env r =
     (case r of (job, evs, how) \<Rightarrow>
        (case how of
           Returned \<Rightarrow> job
         | Raised e \<Rightarrow> fst (handle_job_failure job (Some UNKNOWN_ERROR) (Some (str_of_error e)))
         | ReachedUpdate \<Rightarrow>
             if env_save_ok env then job
             else fst (handle_job_failure job (Some UNKNOWN_ERROR) (Some (str_of_error OSError)))))"

definition job_after :: "job_env \<Rightarrow> ProcessingOptions \<Rightarrow> TranscriptionJob \<Rightarrow> TranscriptionJob" where
  "job_after env options job0 = after_try env (try_body env options job0)"

text \<open>Whether the three adapter stages of a pass all succeed.\<close>

definition transcription_succeeds :: "job_env \<Rightarrow> bool" where
  "transcription_succeeds env =
     (fst (env_download env) \<noteq> None \<and> env_mkdir_ok env \<and> fst (env_convert env)
      \<and> fst (env_transcribe env))"

text \<open>The job as the formatters see it when the adapter stages have succeeded.\<close>

definition job_at_formatting :: "job_env \<Rightarrow> TranscriptionJob \<Rightarrow> TranscriptionJob" where
  "job_at_formatting env job0 =
     transcribed ((with_metadata env (job0\<lparr>status := DOWNLOADING\<rparr>))\<lparr>status := TRANSCRIBING\<rparr>)
       (fst (snd (env_transcribe env)))"

text \<open>Whether the formatter requested for a format is registered and succeeds on the job.\<close>

definition format_ok :: "job_env \<Rightarrow> TranscriptionJob \<Rightarrow> OutputFormats \<Rightarrow> bool" where
  "format_ok env job fmt = (case formatters fmt of None \<Rightarrow> False | Some formatter \<Rightarrow> formatter env job)"

section \<open>Sample inputs\<close>

definition sample_metadata :: VideoMetadata where
  "sample_metadata = \<lparr>title = Some ''talk'', platform = Some ''YouTube'', duration = Some 100\<rparr>"

definition sample_transcript :: transcript_dict where
  "sample_transcript = \<lparr>td_id = Some ''tr1'', td_text = Some ''hello world'', td_words = []\<rparr>"

text \<open>Every external call succeeds.\<close>

definition env_success :: job_env where
  "env_success =
     \<lparr>env_metadata = Some sample_metadata, env_download = (Some ''video.mp4'', None, None),
      env_mkdir_ok = True, env_convert = (True, None, None),
      env_transcribe = (True, Some sample_transcript, None, None),
      env_write_ok = (\<lambda>fmt. True), env_save_ok = True\<rparr>"

text \<open>Only the text file can be written.\<close>

definition env_only_txt :: job_env where
  "env_only_txt = env_success\<lparr>env_write_ok := (\<lambda>fmt. fmt = TXT)\<rparr>"

text \<open>The metadata probe fails, everything else succeeds.\<close>

definition env_no_metadata :: job_env where
  "env_no_metadata = env_success\<lparr>env_metadata := None\<rparr>"

text \<open>The download fails.\<close>

definition env_download_fails :: job_env where
  "env_download_fails =
     env_success\<lparr>env_download := (None, Some DOWNLOAD_FAILED, Some ''Downloaded file not found'')\<rparr>"

definition sample_options :: ProcessingOptions where
  "sample_options =
     \<lparr>formats = [TXT, SRT], enable_summary = False, delete_temp = True, dry_run = False,
      options_budget_cap = Some (1 / 10)\<rparr>"

definition sample_config :: Config where
  "sample_config = \<lparr>retry_limit = 3, cap_budget_usd = 20\<rparr>"

definition sample_state :: run_state where
  "sample_state =
     \<lparr>manifest = populate_jobs (create_manifest sample_config ''b'' [''txt'', ''srt''] (Some (1 / 10)))
        [''http://a.example/v''],
      trace = []\<rparr>"

definition two_url_file :: input_file where
  "two_url_file =
     \<lparr>suffix_lower = ''.txt'', readable = True,
      file_lines = [''http://a.example/v'', ''http://b.example/w''],
      csv_fieldnames = None, csv_rows = []\<rparr>"

text \<open>A batch of two URLs in which every call succeeds.\<close>

definition batch_success :: batch_env where
  "batch_success =
     \<lparr>batch_id = ''b'', the_input = two_url_file, job_envs = (\<lambda>i. env_success),
      outdir_ok = True, first_save_ok = True, final_save_ok = True\<rparr>"

text \<open>The same batch, the download of the first URL failing.\<close>

definition batch_first_fails :: batch_env where
  "batch_first_fails =
     batch_success\<lparr>job_envs := (\<lambda>i. if i = 0 then env_download_fails else env_success)\<rparr>"

text \<open>A short name for each kind of event.\<close>

definition event_kind :: "event \<Rightarrow> string" where
  "event_kind e =
     (case e of GetVideoMetadata u \<Rightarrow> ''metadata'' | DownloadVideo u j \<Rightarrow> ''download''
      | ConvertMp4ToMp3 j \<Rightarrow> ''convert'' | TranscribeAudio j \<Rightarrow> ''transcribe''
      | SaveManifest m \<Rightarrow> ''save'')"

section \<open>Reachable manifests\<close>

text \<open>
  The manifests the orchestrator produces: the one a batch run returns and every one it
  wrote on the way; the same for a retry of a manifest produced earlier; and a manifest
  loaded back from what was saved.
\<close>

inductive reachable :: "Config \<Rightarrow> TranscriptionManifest \<Rightarrow> bool" for cfg :: Config where
  batch: "process_batch cfg benv options = Inr st \<Longrightarrow> reachable cfg (manifest st)"
| batch_saved:
    "process_batch cfg benv options = Inr st \<Longrightarrow> SaveManifest m \<in> set (trace st)
     \<Longrightarrow> reachable cfg m"
| retry:
    "reachable cfg m \<Longrightarrow>
     retry_failed_jobs cfg env save_ok \<lparr>manifest = m, trace = []\<rparr> cap = Inr st
     \<Longrightarrow> reachable cfg (manifest st)"
| retry_saved:
    "reachable cfg m \<Longrightarrow>
     retry_failed_jobs cfg env save_ok \<lparr>manifest = m, trace = []\<rparr> cap = Inr st
     \<Longrightarrow> SaveManifest m' \<in> set (trace st) \<Longrightarrow> reachable cfg m'"
| reload: "reachable cfg m \<Longrightarrow> load_manifest (manifest_json m) = Inr m' \<Longrightarrow> reachable cfg m'"

text \<open>A job carries a failure reason exactly when it is \<open>FAILED\<close> or \<open>SKIPPED\<close>.\<close>

definition reason_consistent :: "TranscriptionJob \<Rightarrow> bool" where
  "reason_consistent job =
     ((failure_reason job \<noteq> None) = (status job = FAILED \<or> status job = SKIPPED))"

text \<open>
  A state all of whose jobs are consistent in this sense, in the manifest held in memory and
  in every manifest written so far.
\<close>

definition consistent_state :: "run_state \<Rightarrow> bool" where
  "consistent_state st =
     (list_all reason_consistent (jobs (manifest st))
      \<and> list_all (\<lambda>e. case e of SaveManifest m \<Rightarrow> list_all reason_consistent (jobs m) | _ \<Rightarrow> True)
           (trace st))"


section \<open>Caption grouping: properties\<close>

lemma srt_loop_groups:
  assumes "\<forall>w \<in> set ws. truthy (word_start w) \<and> truthy (word_end w)"
    and "cur \<noteq> [] \<Longrightarrow> cs = num (word_start (hd cur))"
    and "length cur \<le> mw" and "cur = [] \<or> group_bounded md cur"
    and "0 < mw"
  shows "\<exists>gs. concat gs = cur @ ws \<and> [] \<notin> set gs
           \<and> finish_segments (srt_loop md mw ws (segs, cur, cs)) = segs @ map segment_of gs
           \<and> (\<forall>g \<in> set gs. length g \<le> mw \<and> group_bounded md g)"
  using assms
proof (induction ws arbitrary: segs cur cs)
  case Nil
  show ?case
  proof (cases "cur = []")
    case True
    then show ?thesis by (intro exI[of _ "[]"]) (simp add: finish_segments_def)
  next
    case False
    with Nil show ?thesis
      by (intro exI[of _ "[cur]"]) (simp add: finish_segments_def segment_of_def)
  qed
next
  case (Cons w ws)
  have tw: "truthy (word_start w)" "truthy (word_end w)"
    and rest: "\<forall>w \<in> set ws. truthy (word_start w) \<and> truthy (word_end w)"
    using Cons.prems(1) by simp_all
  show ?case
  proof (cases "cur = []")
    case True
    have "\<exists>gs. concat gs = [w] @ ws \<and> [] \<notin> set gs
           \<and> finish_segments (srt_loop md mw ws (segs, [w], num (word_start w)))
               = segs @ map segment_of gs
           \<and> (\<forall>g \<in> set gs. length g \<le> mw \<and> group_bounded md g)"
      using Cons.prems(5) by (intro Cons.IH[OF rest]) (simp_all add: group_bounded_def)
    with True tw show ?thesis by simp
  next
    case False
    note cur = False
    show ?thesis
    proof (cases "num (word_end w) - cs > md \<or> length cur \<ge> mw")
      case True
      have "\<exists>gs. concat gs = [w] @ ws \<and> [] \<notin> set gs
             \<and> finish_segments (srt_loop md mw ws
                  (segs @ [make_segment cs cur], [w], num (word_start w)))
                 = (segs @ [make_segment cs cur]) @ map segment_of gs
             \<and> (\<forall>g \<in> set gs. length g \<le> mw \<and> group_bounded md g)"
        using Cons.prems(5) by (intro Cons.IH[OF rest]) (simp_all add: group_bounded_def)
      then obtain gs where gs: "concat gs = [w] @ ws" "[] \<notin> set gs"
          "finish_segments (srt_loop md mw ws
              (segs @ [make_segment cs cur], [w], num (word_start w)))
             = (segs @ [make_segment cs cur]) @ map segment_of gs"
          "\<forall>g \<in> set gs. length g \<le> mw \<and> group_bounded md g"
        by blast
      have seg: "make_segment cs cur = segment_of cur"
        using Cons.prems(2) cur by (simp add: segment_of_def)
      have "concat (cur # gs) = cur @ w # ws" using gs(1) by simp
      moreover have "[] \<notin> set (cur # gs)" using gs(2) cur by auto
      moreover have "finish_segments (srt_loop md mw (w # ws) (segs, cur, cs))
          = segs @ map segment_of (cur # gs)"
        using True tw cur gs(3) seg by simp
      moreover have "\<forall>g \<in> set (cur # gs). length g \<le> mw \<and> group_bounded md g"
        using gs(4) Cons.prems(3,4) cur by simp
      ultimately show ?thesis by blast
    next
      case False
      have hd_eq: "hd (cur @ [w]) = hd cur" using cur by simp
      have "\<exists>gs. concat gs = (cur @ [w]) @ ws \<and> [] \<notin> set gs
             \<and> finish_segments (srt_loop md mw ws (segs, cur @ [w], cs))
                 = segs @ map segment_of gs
             \<and> (\<forall>g \<in> set gs. length g \<le> mw \<and> group_bounded md g)"
      proof (intro Cons.IH[OF rest])
        show "cur @ [w] \<noteq> [] \<Longrightarrow> cs = num (word_start (hd (cur @ [w])))"
          using Cons.prems(2) cur hd_eq by simp
        show "length (cur @ [w]) \<le> mw" using False by simp
        show "cur @ [w] = [] \<or> group_bounded md (cur @ [w])"
          using False Cons.prems(2) cur hd_eq by (simp add: group_bounded_def)
        show "0 < mw" by (rule Cons.prems(5))
      qed
      with False tw cur show ?thesis by simp
    qed
  qed
qed

lemma vtt_loop_groups:
  assumes "\<forall>w \<in> set ws. truthy (word_start w) \<and> truthy (word_end w)"
    and "cur \<noteq> [] \<Longrightarrow> cs = num (word_start (hd cur))"
    and "cur = [] \<or> group_bounded md cur"
  shows "\<exists>gs. concat gs = cur @ ws \<and> [] \<notin> set gs
           \<and> finish_segments (vtt_loop md ws (segs, cur, cs)) = segs @ map segment_of gs
           \<and> (\<forall>g \<in> set gs. group_bounded md g)"
  using assms
proof (induction ws arbitrary: segs cur cs)
  case Nil
  show ?case
  proof (cases "cur = []")
    case True
    then show ?thesis by (intro exI[of _ "[]"]) (simp add: finish_segments_def)
  next
    case False
    with Nil show ?thesis
      by (intro exI[of _ "[cur]"]) (simp add: finish_segments_def segment_of_def)
  qed
next
  case (Cons w ws)
  have tw: "truthy (word_start w)" "truthy (word_end w)"
    and rest: "\<forall>w \<in> set ws. truthy (word_start w) \<and> truthy (word_end w)"
    using Cons.prems(1) by simp_all
  show ?case
  proof (cases "cur = []")
    case True
    have "\<exists>gs. concat gs = [w] @ ws \<and> [] \<notin> set gs
           \<and> finish_segments (vtt_loop md ws (segs, [w], num (word_start w)))
               = segs @ map segment_of gs
           \<and> (\<forall>g \<in> set gs. group_bounded md g)"
      by (intro Cons.IH[OF rest]) (simp_all add: group_bounded_def)
    with True tw show ?thesis by simp
  next
    case False
    note cur = False
    show ?thesis
    proof (cases "num (word_end w) - cs > md")
      case True
      have "\<exists>gs. concat gs = [w] @ ws \<and> [] \<notin> set gs
             \<and> finish_segments (vtt_loop md ws
                  (segs @ [make_segment cs cur], [w], num (word_start w)))
                 = (segs @ [make_segment cs cur]) @ map segment_of gs
             \<and> (\<forall>g \<in> set gs. group_bounded md g)"
        by (intro Cons.IH[OF rest]) (simp_all add: group_bounded_def)
      then obtain gs where gs: "concat gs = [w] @ ws" "[] \<notin> set gs"
          "finish_segments (vtt_loop md ws
              (segs @ [make_segment cs cur], [w], num (word_start w)))
             = (segs @ [make_segment cs cur]) @ map segment_of gs"
          "\<forall>g \<in> set gs. group_bounded md g"
        by blast
      have seg: "make_segment cs cur = segment_of cur"
        using Cons.prems(2) cur by (simp add: segment_of_def)
      have "concat (cur # gs) = cur @ w # ws" using gs(1) by simp
      moreover have "[] \<notin> set (cur # gs)" using gs(2) cur by auto
      moreover have "finish_segments (vtt_loop md (w # ws) (segs, cur, cs))
          = segs @ map segment_of (cur # gs)"
        using True tw cur gs(3) seg by simp
      moreover have "\<forall>g \<in> set (cur # gs). group_bounded md g"
        using gs(4) Cons.prems(3) cur by simp
      ultimately show ?thesis by blast
    next
      case False
      have hd_eq: "hd (cur @ [w]) = hd cur" using cur by simp
      have "\<exists>gs. concat gs = (cur @ [w]) @ ws \<and> [] \<notin> set gs
             \<and> finish_segments (vtt_loop md ws (segs, cur @ [w], cs))
                 = segs @ map segment_of gs
             \<and> (\<forall>g \<in> set gs. group_bounded md g)"
      proof (intro Cons.IH[OF rest])
        show "cur @ [w] \<noteq> [] \<Longrightarrow> cs = num (word_start (hd (cur @ [w])))"
          using Cons.prems(2) cur hd_eq by simp
        show "cur @ [w] = [] \<or> group_bounded md (cur @ [w])"
          using False Cons.prems(2) cur hd_eq by (simp add: group_bounded_def)
      qed
      with False tw cur show ?thesis by simp
    qed
  qed
qed

text \<open>
  C6, as stated, fails: a single word with explicit timestamps that lasts nine seconds is a
  segment of its own, and that segment spans more than the 8 second maximum.
\<close>

theorem caption_max_duration_counterexample:
  "word_start long_word \<noteq> None \<and> word_end long_word \<noteq> None
   \<and> (\<exists>s \<in> set (srt_group_words_into_segments [long_word]). seg_end s - seg_start s > 8)
   \<and> (\<exists>s \<in> set (vtt_group_words_into_segments [long_word]). seg_end s - seg_start s > 8)"
  by (simp add: long_word_def srt_group_words_into_segments_def vtt_group_words_into_segments_def
      finish_segments_def make_segment_def truthy_def num_def)

text \<open>
  C6, amended: for every word sequence in which every word has a start and an end timestamp
  that is present and not zero, both groupings cut the sequence into consecutive non-empty
  groups (every word in exactly one group, in the original order); each produced segment
  starts at the start of its group's first word, ends at the end of its last word and carries
  the group's texts joined by single spaces; every group is a single word or spans at most 8
  seconds; and the SRT grouping puts at most 10 words in a group.
\<close>

theorem caption_grouping_partition:
  assumes "\<forall>w \<in> set ws. truthy (word_start w) \<and> truthy (word_end w)"
  shows "(\<exists>gs. concat gs = ws \<and> [] \<notin> set gs
            \<and> srt_group_words_into_segments ws = map segment_of gs
            \<and> (\<forall>g \<in> set gs. length g \<le> 10 \<and> group_bounded 8 g))
       \<and> (\<exists>gs. concat gs = ws \<and> [] \<notin> set gs
            \<and> vtt_group_words_into_segments ws = map segment_of gs
            \<and> (\<forall>g \<in> set gs. group_bounded 8 g))"
proof
  show "\<exists>gs. concat gs = ws \<and> [] \<notin> set gs
            \<and> srt_group_words_into_segments ws = map segment_of gs
            \<and> (\<forall>g \<in> set gs. length g \<le> 10 \<and> group_bounded 8 g)"
    using srt_loop_groups[OF assms, of "[]" 0 10 8 "[]"]
    by (simp add: srt_group_words_into_segments_def)
  show "\<exists>gs. concat gs = ws \<and> [] \<notin> set gs
            \<and> vtt_group_words_into_segments ws = map segment_of gs
            \<and> (\<forall>g \<in> set gs. group_bounded 8 g)"
    using vtt_loop_groups[OF assms, of "[]" 0 8 "[]"]
    by (simp add: vtt_group_words_into_segments_def)
qed

theorem caption_grouping_partition_witness:
  "(\<exists>gs. concat gs = sample_words \<and> [] \<notin> set gs
      \<and> srt_group_words_into_segments sample_words = map segment_of gs
      \<and> \<not> (\<exists>g \<in> set gs. \<not> (length g \<le> 10 \<and> group_bounded 8 g)))
   \<and> length (srt_group_words_into_segments sample_words) = 2"
proof -
  have h: "\<forall>w \<in> set sample_words. truthy (word_start w) \<and> truthy (word_end w)"
    by (simp add: sample_words_def truthy_def)
  have "length (srt_group_words_into_segments sample_words) = 2"
    by (simp add: sample_words_def srt_group_words_into_segments_def finish_segments_def
        truthy_def num_def)
  with caption_grouping_partition[OF h] show ?thesis by simp
qed

section \<open>Input lists: properties\<close>





section \<open>Pipeline and batch loop: supporting lemmas\<close>

lemma try_body_cases:
  assumes "\<And>r m. P (fail_with (with_metadata env (job0\<lparr>status := DOWNLOADING\<rparr>)) r m
             [GetVideoMetadata (url job0), DownloadVideo (url job0) (job_id job0)])"
    and "P ((with_metadata env (job0\<lparr>status := DOWNLOADING\<rparr>))\<lparr>status := CONVERTING\<rparr>,
             [GetVideoMetadata (url job0), DownloadVideo (url job0) (job_id job0)], Raised OSError)"
    and "\<And>r m. P (fail_with ((with_metadata env (job0\<lparr>status := DOWNLOADING\<rparr>))\<lparr>status := CONVERTING\<rparr>) r m
             [GetVideoMetadata (url job0), DownloadVideo (url job0) (job_id job0), ConvertMp4ToMp3 (job_id job0)])"
    and "\<And>r m. P (fail_with ((with_metadata env (job0\<lparr>status := DOWNLOADING\<rparr>))\<lparr>status := TRANSCRIBING\<rparr>) r m
             [GetVideoMetadata (url job0), DownloadVideo (url job0) (job_id job0), ConvertMp4ToMp3 (job_id job0),
              TranscribeAudio (job_id job0)])"
    and "\<And>td. \<not> format_job_outputs env (transcribed ((with_metadata env (job0\<lparr>status := DOWNLOADING\<rparr>))\<lparr>status := TRANSCRIBING\<rparr>) td) options \<Longrightarrow>
          P (fail_with (transcribed ((with_metadata env (job0\<lparr>status := DOWNLOADING\<rparr>))\<lparr>status := TRANSCRIBING\<rparr>) td)
               (Some FORMAT_FAILED) (Some ''Failed to format outputs'')
             [GetVideoMetadata (url job0), DownloadVideo (url job0) (job_id job0), ConvertMp4ToMp3 (job_id job0),
              TranscribeAudio (job_id job0)])"
    and "\<And>td. format_job_outputs env (transcribed ((with_metadata env (job0\<lparr>status := DOWNLOADING\<rparr>))\<lparr>status := TRANSCRIBING\<rparr>) td) options \<Longrightarrow>
          P ((transcribed ((with_metadata env (job0\<lparr>status := DOWNLOADING\<rparr>))\<lparr>status := TRANSCRIBING\<rparr>) td)\<lparr>status := COMPLETED\<rparr>,
             [GetVideoMetadata (url job0), DownloadVideo (url job0) (job_id job0), ConvertMp4ToMp3 (job_id job0),
              TranscribeAudio (job_id job0)], ReachedUpdate)"
  shows "P (try_body env options job0)"
proof -
  obtain vp r1 m1 where d: "env_download env = (vp, r1, m1)" by (cases "env_download env") auto
  obtain ok2 r2 m2 where c: "env_convert env = (ok2, r2, m2)" by (cases "env_convert env") auto
  obtain ok3 td r3 m3 where t: "env_transcribe env = (ok3, td, r3, m3)" by (cases "env_transcribe env") auto
  show ?thesis
    unfolding try_body_def Let_def d c t prod.case
    using assms by simp
qed

lemma after_try_fail_with:
  "after_try env (fail_with job r m evs)
     = job\<lparr>status := FAILED,
           failure_reason := Some (case r of None \<Rightarrow> UNKNOWN_ERROR | Some x \<Rightarrow> x),
           error_message := (case r of None \<Rightarrow> Some (str_of_error AttributeError) | Some x \<Rightarrow> m)\<rparr>"
  by (cases r) (simp_all add: after_try_def fail_with_def handle_job_failure_def)

lemma after_try_raised:
  "after_try env (job, evs, Raised e)
     = job\<lparr>status := FAILED, failure_reason := Some UNKNOWN_ERROR,
           error_message := Some (str_of_error e)\<rparr>"
  by (simp add: after_try_def handle_job_failure_def)

lemma after_try_reached:
  "after_try env (job, evs, ReachedUpdate)
     = (if env_save_ok env then job
        else job\<lparr>status := FAILED, failure_reason := Some UNKNOWN_ERROR,
                 error_message := Some (str_of_error OSError)\<rparr>)"
  by (simp add: after_try_def handle_job_failure_def)

lemmas after_try_simps = after_try_fail_with after_try_raised after_try_reached

lemma with_metadata_fields:
  "status (with_metadata env job) = status job"
  "failure_reason (with_metadata env job) = failure_reason job"
  "error_message (with_metadata env job) = error_message job"
  "retry_count (with_metadata env job) = retry_count job"
  "actual_cost (with_metadata env job) = actual_cost job"
  "job_id (with_metadata env job) = job_id job"
  "url (with_metadata env job) = url job"
  by (simp_all add: with_metadata_def split: option.splits)

lemma transcribed_fields:
  "status (transcribed job td) = FORMATTING"
  "failure_reason (transcribed job td) = failure_reason job"
  "error_message (transcribed job td) = error_message job"
  "retry_count (transcribed job td) = retry_count job"
  "job_id (transcribed job td) = job_id job"
  "url (transcribed job td) = url job"
  "video_metadata (transcribed job td) = video_metadata job"
  "estimated_cost (transcribed job td) = estimated_cost job"
  by (simp_all add: transcribed_def)

lemma job_after_status:
  "status (job_after env options job0) = COMPLETED \<or> status (job_after env options job0) = FAILED"
  unfolding job_after_def
  by (rule try_body_cases) (simp_all add: after_try_simps)

lemma job_after_reason:
  assumes "failure_reason job0 = None"
  shows "(failure_reason (job_after env options job0) \<noteq> None)
           = (status (job_after env options job0) = FAILED)"
  unfolding job_after_def
  by (rule try_body_cases) (simp_all add: after_try_simps with_metadata_fields transcribed_fields assms)


lemma jobs_process_single_job:
  "jobs (manifest (process_single_job env options i st))
     = (jobs (manifest st))[i := job_after env options (jobs (manifest st) ! i)]"
proof -
  obtain job evs how where t: "try_body env options (jobs (manifest st) ! i) = (job, evs, how)"
    by (cases "try_body env options (jobs (manifest st) ! i)") auto
  show ?thesis
    by (cases how)
      (simp_all add: process_single_job_def job_after_def after_try_def t set_job_def
        save_manifest_def update_stats_def Let_def)
qed

lemma job_after_stages_fail:
  assumes "\<not> transcription_succeeds env"
  shows "status (job_after env options job0) = FAILED
       \<and> actual_cost (job_after env options job0) = actual_cost job0"
proof -
  obtain vp r1 m1 where d: "env_download env = (vp, r1, m1)" by (cases "env_download env") auto
  obtain ok2 r2 m2 where c: "env_convert env = (ok2, r2, m2)" by (cases "env_convert env") auto
  obtain ok3 td r3 m3 where t: "env_transcribe env = (ok3, td, r3, m3)" by (cases "env_transcribe env") auto
  from assms have "vp = None \<or> \<not> env_mkdir_ok env \<or> \<not> ok2 \<or> \<not> ok3"
    by (simp add: transcription_succeeds_def d c t)
  then show ?thesis
    unfolding job_after_def try_body_def Let_def d c t prod.case
    by (auto simp: after_try_simps with_metadata_fields)
qed

lemma job_after_stages_succeed:
  assumes "transcription_succeeds env"
  shows "job_after env options job0 =
     (if \<not> format_job_outputs env (job_at_formatting env job0) options then
        (job_at_formatting env job0)\<lparr>status := FAILED, failure_reason := Some FORMAT_FAILED,
           error_message := Some ''Failed to format outputs''\<rparr>
      else if env_save_ok env then (job_at_formatting env job0)\<lparr>status := COMPLETED\<rparr>
      else (job_at_formatting env job0)\<lparr>status := FAILED, failure_reason := Some UNKNOWN_ERROR,
           error_message := Some (str_of_error OSError)\<rparr>)"
proof -
  obtain vp r1 m1 where d: "env_download env = (vp, r1, m1)" by (cases "env_download env") auto
  obtain ok2 r2 m2 where c: "env_convert env = (ok2, r2, m2)" by (cases "env_convert env") auto
  obtain ok3 td r3 m3 where t: "env_transcribe env = (ok3, td, r3, m3)" by (cases "env_transcribe env") auto
  from assms obtain p where ok: "vp = Some p" "env_mkdir_ok env" "ok2" "ok3"
    by (auto simp: transcription_succeeds_def d c t)
  show ?thesis
    unfolding job_after_def try_body_def Let_def d c t prod.case job_at_formatting_def
    using ok by (simp add: after_try_simps)
qed

lemma format_loop_eq:
  "format_loop env job fmts success = (success \<and> (\<forall>fmt \<in> set fmts. format_ok env job fmt))"
  by (induction fmts arbitrary: success) (auto simp: format_ok_def split: option.splits)

lemma format_job_outputs_eq:
  "format_job_outputs env job options = (\<forall>fmt \<in> set (formats options). format_ok env job fmt)"
  by (simp add: format_job_outputs_def format_loop_eq)

lemma job_at_formatting_fields:
  "video_metadata (job_at_formatting env job0)
     = (case env_metadata env of None \<Rightarrow> video_metadata job0 | Some md \<Rightarrow> Some md)"
  "estimated_cost (job_at_formatting env job0)
     = (case env_metadata env of None \<Rightarrow> estimated_cost job0
        | Some md \<Rightarrow> Some (estimate_job_cost (if truthy (duration md) then num (duration md) else 120)))"
  "actual_cost (job_at_formatting env job0)
     = (case video_metadata (job_at_formatting env job0) of
          None \<Rightarrow> estimated_cost (job_at_formatting env job0)
        | Some md \<Rightarrow>
            if truthy (duration md) then Some (calculate_actual_cost (num (duration md)))
            else estimated_cost (job_at_formatting env job0))"
  "failure_reason (job_at_formatting env job0) = failure_reason job0"
  "retry_count (job_at_formatting env job0) = retry_count job0"
  by (simp_all add: job_at_formatting_def transcribed_def with_metadata_def split: option.splits)

lemma list_index_first:
  "i < length xs \<Longrightarrow> \<forall>j<i. xs ! j \<noteq> xs ! i \<Longrightarrow> list_index xs (xs ! i) = Some i"
proof (induction xs arbitrary: i)
  case Nil
  then show ?case by simp
next
  case (Cons y ys)
  show ?case
  proof (cases i)
    case 0
    then show ?thesis by simp
  next
    case (Suc k)
    have "y \<noteq> ys ! k" using Cons.prems(2) Suc by auto
    moreover have "list_index ys (ys ! k) = Some k"
    proof (rule Cons.IH)
      show "k < length ys" using Cons.prems(1) Suc by simp
      show "\<forall>j<k. ys ! j \<noteq> ys ! k"
      proof (intro allI impI)
        fix j assume "j < k"
        then have "Suc j < i" using Suc by simp
        with Cons.prems(2) have "(y # ys) ! Suc j \<noteq> (y # ys) ! i" by blast
        then show "ys ! j \<noteq> ys ! k" using Suc by simp
      qed
    qed
    ultimately show ?thesis using Suc by simp
  qed
qed

lemma state_before_inv:
  assumes "state_before env options cap st0 i = Some st"
    and "\<forall>job \<in> set (jobs (manifest st0)). status job = PENDING"
  shows "length (jobs (manifest st)) = length (jobs (manifest st0))
       \<and> i \<le> length (jobs (manifest st0))
       \<and> (\<forall>j<i. status (jobs (manifest st) ! j) = COMPLETED \<or> status (jobs (manifest st) ! j) = FAILED)
       \<and> (\<forall>j. i \<le> j \<and> j < length (jobs (manifest st0)) \<longrightarrow> jobs (manifest st) ! j = jobs (manifest st0) ! j)"
  using assms(1)
proof (induction i arbitrary: st)
  case 0
  then show ?case by simp
next
  case (Suc i)
  from Suc.prems obtain s where s: "state_before env options cap st0 i = Some s"
    and i: "i < length (jobs (manifest s))"
    and st: "st = process_single_job (env i) options i s"
    by (auto split: option.splits if_splits)
  note ih = Suc.IH[OF s]
  have len: "length (jobs (manifest st)) = length (jobs (manifest st0))"
    using ih by (simp add: st jobs_process_single_job)
  have processed: "\<forall>j<Suc i. status (jobs (manifest st) ! j) = COMPLETED \<or> status (jobs (manifest st) ! j) = FAILED"
  proof (intro allI impI)
    fix j assume "j < Suc i"
    show "status (jobs (manifest st) ! j) = COMPLETED \<or> status (jobs (manifest st) ! j) = FAILED"
    proof (cases "j = i")
      case True
      then show ?thesis using i job_after_status by (simp add: st jobs_process_single_job)
    next
      case False
      with \<open>j < Suc i\<close> have "j < i" by simp
      with ih False show ?thesis by (simp add: st jobs_process_single_job)
    qed
  qed
  have rest: "\<forall>j. Suc i \<le> j \<and> j < length (jobs (manifest st0)) \<longrightarrow> jobs (manifest st) ! j = jobs (manifest st0) ! j"
    using ih by (simp add: st jobs_process_single_job)
  from len processed rest i ih show ?case by simp
qed

lemma batch_loop_from:
  assumes "options_budget_cap options = Some cap"
    and "state_before env options cap st0 i = Some st"
    and "length (jobs (manifest st)) = n" and "i \<le> n"
  shows "batch_loop env options [i..<n] st = batch_loop env options [0..<n] st0"
  using assms(2-)
proof (induction i arbitrary: st)
  case 0
  then show ?case by simp
next
  case (Suc i)
  from Suc.prems obtain s where s: "state_before env options cap st0 i = Some s"
    and i: "i < length (jobs (manifest s))"
    and under: "\<not> cap \<le> total_actual_cost (manifest s)"
    and st: "st = process_single_job (env i) options i s"
    by (auto split: option.splits if_splits)
  have len: "length (jobs (manifest s)) = n"
    using Suc.prems(2) by (simp add: st jobs_process_single_job)
  have "batch_loop env options [i..<n] s = batch_loop env options [0..<n] st0"
    using Suc.IH[OF s len] Suc.prems(3) by simp
  moreover have "[i..<n] = i # [Suc i..<n]"
    using i len by (simp add: upt_conv_Cons)
  ultimately show ?case using under assms(1) by (simp add: st)
qed

lemma mark_remaining_at:
  assumes "i < length (jobs m)" and "\<forall>j<i. jobs m ! j \<noteq> jobs m ! i"
  shows "mark_remaining_jobs_skipped m (jobs m ! i)
     = Inr (m\<lparr>jobs := take i (jobs m) @ map mark_skipped (drop i (jobs m))\<rparr>)"
  by (simp add: mark_remaining_jobs_skipped_def list_index_first[OF assms])

lemma populate_jobs_pending:
  "\<forall>job \<in> set (jobs m). status job = PENDING \<Longrightarrow>
   \<forall>job \<in> set (jobs (populate_jobs m urls)). status job = PENDING"
  by (auto simp: populate_jobs_def update_stats_def new_job_def)

lemma initial_state_pending:
  "\<forall>job \<in> set (jobs (manifest (initial_state cfg benv options))). status job = PENDING"
  unfolding initial_state_def save_manifest_def
  using populate_jobs_pending[of "create_manifest cfg (batch_id benv) (map format_value (formats options)) (options_budget_cap options)"]
  by (simp add: create_manifest_def)

lemma initial_state_length:
  "length (jobs (manifest (initial_state cfg benv options)))
     = length (fst (load_urls_from_file (the_input benv)))"
  by (simp add: initial_state_def save_manifest_def populate_jobs_def update_stats_def create_manifest_def)

section \<open>The per-job pipeline: properties\<close>

text \<open>
  C5, as stated, fails: with the formats \<open>txt\<close> and \<open>srt\<close> requested and only the text
  formatter succeeding, the job is demoted to \<open>FAILED\<close> with reason \<open>format_failed\<close> although
  one requested formatter succeeded.
\<close>

theorem format_demotion_counterexample:
  "transcription_succeeds env_only_txt
   \<and> TXT \<in> set (formats sample_options)
   \<and> format_ok env_only_txt (job_at_formatting env_only_txt (jobs (manifest sample_state) ! 0)) TXT
   \<and> status (jobs (manifest (process_single_job env_only_txt sample_options 0 sample_state)) ! 0)
       = FAILED
   \<and> failure_reason (jobs (manifest (process_single_job env_only_txt sample_options 0 sample_state)) ! 0)
       = Some FORMAT_FAILED"
  by code_simp

text \<open>
  C5, amended: a job whose download, conversion and transcription succeeded is demoted to
  \<open>FAILED\<close> with reason \<open>format_failed\<close> if and only if at least one requested output
  formatter fails; it completes if and only if every requested formatter succeeds and the
  manifest can be written afterwards.
\<close>

theorem format_demotion:
  assumes "i < length (jobs (manifest st))" and "transcription_succeeds env"
  shows "((status (jobs (manifest (process_single_job env options i st)) ! i) = FAILED
           \<and> failure_reason (jobs (manifest (process_single_job env options i st)) ! i)
               = Some FORMAT_FAILED)
          = (\<exists>fmt \<in> set (formats options).
               \<not> format_ok env (job_at_formatting env (jobs (manifest st) ! i)) fmt))
       \<and> ((status (jobs (manifest (process_single_job env options i st)) ! i) = COMPLETED)
          = ((\<forall>fmt \<in> set (formats options).
               format_ok env (job_at_formatting env (jobs (manifest st) ! i)) fmt)
             \<and> env_save_ok env))"
  using assms(1)
  by (simp add: jobs_process_single_job job_after_stages_succeed[OF assms(2)]
      format_job_outputs_eq)

theorem format_demotion_witness:
  "0 < length (jobs (manifest sample_state)) \<and> transcription_succeeds env_success
   \<and> status (jobs (manifest (process_single_job env_success sample_options 0 sample_state)) ! 0)
       = COMPLETED"
proof -
  have a: "0 < length (jobs (manifest sample_state))" by code_simp
  have b: "transcription_succeeds env_success" by code_simp
  have c: "(\<forall>fmt \<in> set (formats sample_options).
              format_ok env_success (job_at_formatting env_success (jobs (manifest sample_state) ! 0)) fmt)
           \<and> env_save_ok env_success"
    by code_simp
  from format_demotion[OF a b, of sample_options] c a b show ?thesis by simp
qed

text \<open>
  C3, as stated, fails in both directions: a job whose formatting fails ends \<open>FAILED\<close> with
  the actual cost already set, and a job whose metadata probe failed completes with no
  actual cost (the estimate it falls back to was never made).
\<close>

theorem actual_cost_counterexample:
  "status (jobs (manifest (process_single_job env_only_txt sample_options 0 sample_state)) ! 0)
     = FAILED
   \<and> actual_cost (jobs (manifest (process_single_job env_only_txt sample_options 0 sample_state)) ! 0)
     = Some (147 / 1000)
   \<and> status (jobs (manifest (process_single_job env_no_metadata sample_options 0 sample_state)) ! 0)
     = COMPLETED
   \<and> actual_cost (jobs (manifest (process_single_job env_no_metadata sample_options 0 sample_state)) ! 0)
     = None"
  by code_simp

text \<open>
  C3, amended: after a pipeline pass over a job that carried no actual cost, the actual cost
  is non-null only if download, conversion and transcription succeeded, and the job is then
  \<open>COMPLETED\<close>, or \<open>FAILED\<close> with reason \<open>format_failed\<close> or \<open>unknown_error\<close>. A job that
  reaches \<open>COMPLETED\<close> has the actual cost computed from the duration when the duration is
  known and not zero, and the earlier estimate otherwise; that cost is non-null whenever the
  metadata probe of this pass succeeded or the job already carried an estimate.
\<close>

theorem actual_cost_after_pass:
  assumes "i < length (jobs (manifest st))" and "actual_cost (jobs (manifest st) ! i) = None"
  shows "(actual_cost (jobs (manifest (process_single_job env options i st)) ! i) \<noteq> None
          \<longrightarrow> transcription_succeeds env
            \<and> (status (jobs (manifest (process_single_job env options i st)) ! i) = COMPLETED
               \<or> status (jobs (manifest (process_single_job env options i st)) ! i) = FAILED
                 \<and> (failure_reason (jobs (manifest (process_single_job env options i st)) ! i)
                      = Some FORMAT_FAILED
                    \<or> failure_reason (jobs (manifest (process_single_job env options i st)) ! i)
                      = Some UNKNOWN_ERROR)))
       \<and> (status (jobs (manifest (process_single_job env options i st)) ! i) = COMPLETED
          \<longrightarrow> actual_cost (jobs (manifest (process_single_job env options i st)) ! i)
              = (case video_metadata (jobs (manifest (process_single_job env options i st)) ! i) of
                   None \<Rightarrow> estimated_cost (jobs (manifest (process_single_job env options i st)) ! i)
                 | Some metadata \<Rightarrow>
                     if truthy (duration metadata)
                     then Some (calculate_actual_cost (num (duration metadata)))
                     else estimated_cost (jobs (manifest (process_single_job env options i st)) ! i)))
       \<and> (status (jobs (manifest (process_single_job env options i st)) ! i) = COMPLETED
            \<and> (env_metadata env \<noteq> None \<or> estimated_cost (jobs (manifest st) ! i) \<noteq> None)
          \<longrightarrow> actual_cost (jobs (manifest (process_single_job env options i st)) ! i) \<noteq> None)"
proof (cases "transcription_succeeds env")
  case False
  from job_after_stages_fail[OF False, of options "jobs (manifest st) ! i"] assms
  show ?thesis by (simp add: jobs_process_single_job)
next
  case True
  show ?thesis
    using assms(1) True
    by (auto simp: jobs_process_single_job job_after_stages_succeed[OF True]
        job_at_formatting_fields split: option.splits)
qed

theorem actual_cost_after_pass_witness:
  "0 < length (jobs (manifest sample_state))
   \<and> actual_cost (jobs (manifest sample_state) ! 0) = None
   \<and> status (jobs (manifest (process_single_job env_success sample_options 0 sample_state)) ! 0)
       = COMPLETED
   \<and> actual_cost (jobs (manifest (process_single_job env_success sample_options 0 sample_state)) ! 0)
       = Some (147 / 1000)"
proof -
  have a: "0 < length (jobs (manifest sample_state))" by code_simp
  have b: "actual_cost (jobs (manifest sample_state) ! 0) = None" by code_simp
  have c: "status (jobs (manifest (process_single_job env_success sample_options 0 sample_state)) ! 0)
       = COMPLETED" by code_simp
  have d: "video_metadata (jobs (manifest (process_single_job env_success sample_options 0 sample_state)) ! 0)
       = Some sample_metadata" by code_simp
  have e: "duration sample_metadata = Some 100" by (simp add: sample_metadata_def)
  have f: "calculate_actual_cost 100 = 147 / 1000"
    by (simp add: calculate_actual_cost_def estimate_job_cost_def estimate_transcription_cost_def
        estimate_conversion_cost_def)
  from actual_cost_after_pass[OF a b, of env_success sample_options] a b c d e f
  show ?thesis by (simp add: truthy_def num_def)
qed

text \<open>
  C8 on a failing job: in a batch of two URLs whose first download fails, the first job ends
  \<open>FAILED\<close>, yet the pass over it writes no manifest and leaves the aggregates as they were
  (\<open>failed_jobs\<close> is still 0); the second job's calls follow directly, and the manifest is
  next written only after the second job has completed.
\<close>

theorem failed_job_not_persisted:
  "status (jobs (manifest (process_single_job env_download_fails sample_options 0 sample_state)) ! 0)
     = FAILED
   \<and> failed_jobs (manifest (process_single_job env_download_fails sample_options 0 sample_state)) = 0
   \<and> map event_kind (trace (process_single_job env_download_fails sample_options 0 sample_state))
     = [''metadata'', ''download'']
   \<and> (case process_batch sample_config batch_first_fails sample_options of
        Inl e \<Rightarrow> False
      | Inr st \<Rightarrow>
          map status (jobs (manifest st)) = [FAILED, COMPLETED]
          \<and> map event_kind (trace st)
            = [''save'', ''metadata'', ''download'',
               ''metadata'', ''download'', ''convert'', ''transcribe'', ''save'', ''save''])"
  by code_simp

section \<open>The batch orchestrator: properties\<close>

text \<open>
  C1: take any batch run (not a dry run, with a budget cap, whose directory and manifest
  writes work) and any position \<open>i\<close> at which the loop arrives in a state \<open>st\<close> whose
  \<open>total_actual_cost\<close>, as last recomputed, has reached the cap. Then the run ends normally;
  the job at \<open>i\<close> and every later job (all of them still \<open>PENDING\<close>) end \<open>SKIPPED\<close> with
  reason \<open>budget_exceeded\<close>; nothing is called after the check, the only further event being
  the final write of the manifest; and the jobs before \<open>i\<close>, each \<open>COMPLETED\<close> or \<open>FAILED\<close>,
  are as they were.
\<close>

theorem budget_cutoff_skips_remaining:
  assumes "options_budget_cap options = Some cap"
    and "fst (load_urls_from_file (the_input benv)) \<noteq> []"
    and "outdir_ok benv" and "first_save_ok benv" and "final_save_ok benv"
    and "\<not> dry_run options"
    and "state_before (job_envs benv) options cap (initial_state cfg benv options) i = Some st"
    and "i < length (jobs (manifest st))"
    and "cap \<le> total_actual_cost (manifest st)"
  shows "\<exists>st'. process_batch cfg benv options = Inr st'
     \<and> trace st' = trace st @ [SaveManifest (manifest st')]
     \<and> length (jobs (manifest st')) = length (jobs (manifest st))
     \<and> (\<forall>j<i. jobs (manifest st') ! j = jobs (manifest st) ! j
            \<and> (status (jobs (manifest st') ! j) = COMPLETED
               \<or> status (jobs (manifest st') ! j) = FAILED))
     \<and> (\<forall>j. i \<le> j \<and> j < length (jobs (manifest st)) \<longrightarrow>
            status (jobs (manifest st) ! j) = PENDING
            \<and> status (jobs (manifest st') ! j) = SKIPPED
            \<and> failure_reason (jobs (manifest st') ! j) = Some BUDGET_EXCEEDED)"
proof -
  define st0 where "st0 = initial_state cfg benv options"
  define n where "n = length (jobs (manifest st0))"
  define js where "js = jobs (manifest st)"
  have fresh: "\<forall>job \<in> set (jobs (manifest st0)). status job = PENDING"
    unfolding st0_def by (rule initial_state_pending)
  have sb: "state_before (job_envs benv) options cap st0 i = Some st"
    using assms(7) by (simp add: st0_def)
  from state_before_inv[OF sb fresh]
  have len: "length js = n"
    and before: "\<forall>j<i. status (js ! j) = COMPLETED \<or> status (js ! j) = FAILED"
    and rest: "\<forall>j. i \<le> j \<and> j < n \<longrightarrow> js ! j = jobs (manifest st0) ! j"
    by (simp_all add: n_def js_def)
  have i: "i < n" using assms(8) len by (simp add: js_def)
  have pending: "status (js ! j) = PENDING" if "i \<le> j" "j < n" for j
  proof -
    have "jobs (manifest st0) ! j \<in> set (jobs (manifest st0))"
      using that by (simp add: n_def)
    with fresh rest that show ?thesis by simp
  qed
  have distinct_i: "\<forall>j<i. jobs (manifest st) ! j \<noteq> jobs (manifest st) ! i"
  proof (intro allI impI)
    fix j assume "j < i"
    with before have "status (js ! j) \<noteq> PENDING" by auto
    moreover have "status (js ! i) = PENDING" using pending[of i] i by simp
    ultimately show "jobs (manifest st) ! j \<noteq> jobs (manifest st) ! i"
      by (auto simp: js_def)
  qed
  define m' where "m' = (manifest st)\<lparr>jobs := take i js @ map mark_skipped (drop i js)\<rparr>"
  have mark: "mark_remaining_jobs_skipped (manifest st) (jobs (manifest st) ! i) = Inr m'"
    using mark_remaining_at[OF assms(8) distinct_i] by (simp add: m'_def js_def)
  have "[i..<n] = i # [Suc i..<n]" using i by (simp add: upt_conv_Cons)
  then have "batch_loop (job_envs benv) options [i..<n] st = Inr (st\<lparr>manifest := m'\<rparr>)"
    using assms(1,9) mark by simp
  moreover have "batch_loop (job_envs benv) options [i..<n] st
      = batch_loop (job_envs benv) options [0..<n] st0"
    using batch_loop_from[OF assms(1) sb] len i by (simp add: js_def)
  ultimately have loop: "batch_loop (job_envs benv) options [0..<n] st0 = Inr (st\<lparr>manifest := m'\<rparr>)"
    by simp
  define st' where "st' = save_manifest (st\<lparr>manifest := update_stats m'\<rparr>)"
  have run: "process_batch cfg benv options = Inr st'"
    using assms(2-6) loop
    by (simp add: process_batch_def Let_def st0_def[symmetric] n_def[symmetric] st'_def)
  have jobs': "jobs (manifest st') = take i js @ map mark_skipped (drop i js)"
    by (simp add: st'_def save_manifest_def update_stats_def m'_def)
  have tr: "trace st' = trace st @ [SaveManifest (manifest st')]"
    by (simp add: st'_def save_manifest_def)
  have len': "length (jobs (manifest st')) = length (jobs (manifest st))"
    using i len by (simp add: jobs' js_def[symmetric])
  have low: "\<forall>j<i. jobs (manifest st') ! j = jobs (manifest st) ! j
            \<and> (status (jobs (manifest st') ! j) = COMPLETED
               \<or> status (jobs (manifest st') ! j) = FAILED)"
    using before i len by (simp add: jobs' nth_append js_def[symmetric])
  have high: "\<forall>j. i \<le> j \<and> j < length (jobs (manifest st)) \<longrightarrow>
            status (jobs (manifest st) ! j) = PENDING
            \<and> status (jobs (manifest st') ! j) = SKIPPED
            \<and> failure_reason (jobs (manifest st') ! j) = Some BUDGET_EXCEEDED"
  proof (intro allI impI)
    fix j assume "i \<le> j \<and> j < length (jobs (manifest st))"
    then have ij: "i \<le> j" and jn: "j < n" using len by (simp_all add: js_def)
    have p: "status (js ! j) = PENDING" using pending ij jn by simp
    have in_drop: "j - i < length (drop i js)" using ij jn len by simp
    have "jobs (manifest st') ! j = map mark_skipped (drop i js) ! (j - i)"
      using ij i len by (simp add: jobs' nth_append)
    also have "\<dots> = mark_skipped (drop i js ! (j - i))"
      using in_drop by (rule nth_map)
    also have "drop i js ! (j - i) = js ! j"
      using ij jn len by simp
    finally have "jobs (manifest st') ! j = mark_skipped (js ! j)" .
    with p show "status (jobs (manifest st) ! j) = PENDING
            \<and> status (jobs (manifest st') ! j) = SKIPPED
            \<and> failure_reason (jobs (manifest st') ! j) = Some BUDGET_EXCEEDED"
      by (simp add: mark_skipped_def js_def)
  qed
  from run tr len' low high show ?thesis by blast
qed

theorem budget_cutoff_skips_remaining_witness:
  "(case process_batch sample_config batch_success sample_options of
      Inl e \<Rightarrow> False
    | Inr st' \<Rightarrow>
        map status (jobs (manifest st')) = [COMPLETED, SKIPPED]
        \<and> map failure_reason (jobs (manifest st')) = [None, Some BUDGET_EXCEEDED]
        \<and> map event_kind (trace st')
          = [''save'', ''metadata'', ''download'', ''convert'', ''transcribe'', ''save'', ''save''])
   \<and> (1 / 10 :: rat) \<le> total_actual_cost
        (manifest (process_single_job env_success sample_options 0
           (initial_state sample_config batch_success sample_options)))"
proof -
  define st where "st = process_single_job env_success sample_options 0
      (initial_state sample_config batch_success sample_options)"
  have a1: "options_budget_cap sample_options = Some (1 / 10)" by (simp add: sample_options_def)
  have a2: "fst (load_urls_from_file (the_input batch_success)) \<noteq> []" by code_simp
  have a3: "outdir_ok batch_success" "first_save_ok batch_success" "final_save_ok batch_success"
    by (simp_all add: batch_success_def)
  have a6: "\<not> dry_run sample_options" by (simp add: sample_options_def)
  have under: "\<not> (1 / 10 :: rat) \<le> total_actual_cost
      (manifest (initial_state sample_config batch_success sample_options))"
    by code_simp
  have len0: "0 < length (jobs (manifest (initial_state sample_config batch_success sample_options)))"
    by code_simp
  have env0: "job_envs batch_success 0 = env_success" by (simp add: batch_success_def)
  have a7: "state_before (job_envs batch_success) sample_options (1 / 10)
      (initial_state sample_config batch_success sample_options) 1 = Some st"
    using under len0 env0 by (simp add: st_def)
  have a8: "1 < length (jobs (manifest st))" unfolding st_def by code_simp
  have a9: "(1 / 10 :: rat) \<le> total_actual_cost (manifest st)" unfolding st_def by code_simp
  have ev: "(case process_batch sample_config batch_success sample_options of
      Inl e \<Rightarrow> False
    | Inr st' \<Rightarrow>
        map status (jobs (manifest st')) = [COMPLETED, SKIPPED]
        \<and> map failure_reason (jobs (manifest st')) = [None, Some BUDGET_EXCEEDED]
        \<and> map event_kind (trace st')
          = [''save'', ''metadata'', ''download'', ''convert'', ''transcribe'', ''save'', ''save''])"
    by code_simp
  from budget_cutoff_skips_remaining[OF a1 a2 a3 a6 a7 a8 a9]
  obtain st' where "process_batch sample_config batch_success sample_options = Inr st'"
    by blast
  with ev a9 show ?thesis by (simp add: st_def)
qed

lemma list_index_member:
  "x \<in> set xs \<Longrightarrow> \<exists>k. list_index xs x = Some k"
  by (induction xs) auto

lemma batch_loop_returns:
  assumes "options_budget_cap options = Some cap"
    and "\<forall>i \<in> set idxs. i < length (jobs (manifest st))"
  shows "\<exists>st'. batch_loop env options idxs st = Inr st'"
  using assms(2)
proof (induction idxs arbitrary: st)
  case Nil
  show ?case by simp
next
  case (Cons i rest)
  show ?case
  proof (cases "cap \<le> total_actual_cost (manifest st)")
    case True
    have "jobs (manifest st) ! i \<in> set (jobs (manifest st))" using Cons.prems by simp
    from list_index_member[OF this] obtain k where
      "list_index (jobs (manifest st)) (jobs (manifest st) ! i) = Some k" by blast
    then show ?thesis using True assms(1) by (simp add: mark_remaining_jobs_skipped_def)
  next
    case False
    have "\<forall>j \<in> set rest. j < length (jobs (manifest (process_single_job (env i) options i st)))"
      using Cons.prems by (simp add: jobs_process_single_job)
    from Cons.IH[OF this] False assms(1) show ?thesis by simp
  qed
qed

text \<open>
  C10: take a batch run that is not a dry run and has at least one valid URL. If it leaves
  \<open>options.budget_cap\<close> at \<open>None\<close> it never returns a manifest: when the output directory
  and the first manifest write work, it aborts with \<open>TypeError\<close> at the first budget
  comparison, before any job is processed, although the manifest was created with the
  configured default cap. With a budget cap given (and the directory and the manifest writes
  working) the run does return a manifest.
\<close>

theorem missing_budget_cap_aborts:
  assumes "\<not> dry_run options" and "fst (load_urls_from_file (the_input benv)) \<noteq> []"
  shows "(options_budget_cap options = None \<longrightarrow>
            process_batch cfg benv options
              = (if outdir_ok benv \<and> first_save_ok benv then Inl TypeError else Inl OSError)
            \<and> budget_cap (manifest (initial_state cfg benv options)) = cap_budget_usd cfg)
       \<and> (options_budget_cap options \<noteq> None \<and> outdir_ok benv \<and> first_save_ok benv
            \<and> final_save_ok benv \<longrightarrow>
            (\<exists>st. process_batch cfg benv options = Inr st))"
proof (intro conjI impI)
  let ?n = "length (jobs (manifest (initial_state cfg benv options)))"
  assume none: "options_budget_cap options = None"
  have "0 < ?n" using assms(2) by (simp add: initial_state_length)
  then have "[0..<?n] = 0 # [1..<?n]" by (simp add: upt_conv_Cons)
  then have "batch_loop (job_envs benv) options [0..<?n] (initial_state cfg benv options)
      = Inl TypeError"
    using none by simp
  then show "process_batch cfg benv options
      = (if outdir_ok benv \<and> first_save_ok benv then Inl TypeError else Inl OSError)"
    using assms by (simp add: process_batch_def Let_def)
  show "budget_cap (manifest (initial_state cfg benv options)) = cap_budget_usd cfg"
    using none
    by (simp add: initial_state_def save_manifest_def populate_jobs_def update_stats_def
        create_manifest_def truthy_def)
next
  let ?st0 = "initial_state cfg benv options"
  assume ok: "options_budget_cap options \<noteq> None \<and> outdir_ok benv \<and> first_save_ok benv
            \<and> final_save_ok benv"
  then obtain cap where cap: "options_budget_cap options = Some cap" by auto
  have "\<forall>i \<in> set [0..<length (jobs (manifest ?st0))]. i < length (jobs (manifest ?st0))"
    by simp
  from batch_loop_returns[OF cap this, of "job_envs benv"] obtain s where
    "batch_loop (job_envs benv) options [0..<length (jobs (manifest ?st0))] ?st0 = Inr s"
    by blast
  then show "\<exists>st. process_batch cfg benv options = Inr st"
    using assms ok by (simp add: process_batch_def Let_def)
qed

theorem missing_budget_cap_aborts_witness:
  "options_budget_cap (sample_options\<lparr>options_budget_cap := None\<rparr>) = None
   \<and> process_batch sample_config batch_success (sample_options\<lparr>options_budget_cap := None\<rparr>)
       = Inl TypeError
   \<and> budget_cap (manifest (initial_state sample_config batch_success
        (sample_options\<lparr>options_budget_cap := None\<rparr>))) = 20
   \<and> options_budget_cap sample_options \<noteq> None
   \<and> (\<exists>st. process_batch sample_config batch_success sample_options = Inr st)"
proof -
  have a: "options_budget_cap (sample_options\<lparr>options_budget_cap := None\<rparr>) = None" by simp
  have b: "\<not> dry_run (sample_options\<lparr>options_budget_cap := None\<rparr>)"
    "\<not> dry_run sample_options"
    by (simp_all add: sample_options_def)
  have c: "fst (load_urls_from_file (the_input batch_success)) \<noteq> []" by code_simp
  have d: "outdir_ok batch_success \<and> first_save_ok batch_success \<and> final_save_ok batch_success"
    by (simp add: batch_success_def)
  have e: "cap_budget_usd sample_config = 20" by (simp add: sample_config_def)
  have f: "options_budget_cap sample_options \<noteq> None" by (simp add: sample_options_def)
  from missing_budget_cap_aborts[OF b(1) c, of sample_config] a d e
  have first: "process_batch sample_config batch_success (sample_options\<lparr>options_budget_cap := None\<rparr>)
       = Inl TypeError
   \<and> budget_cap (manifest (initial_state sample_config batch_success
        (sample_options\<lparr>options_budget_cap := None\<rparr>))) = 20"
    by simp
  from missing_budget_cap_aborts[OF b(2) c, of sample_config] d f
  have "\<exists>st. process_batch sample_config batch_success sample_options = Inr st"
    by blast
  with first a f show ?thesis by blast
qed

section \<open>Saving and loading: properties\<close>

lemma those_map_decode:
  assumes "\<And>x. dec (enc x) = Some x"
  shows "those (map (dec \<circ> enc) xs) = Some xs"
  by (induction xs) (simp_all add: assms)

lemma opt_round_trip:
  assumes "\<And>x. dec (enc x) = Some x" and "\<And>x. enc x \<noteq> JNull"
  shows "opt_of_json dec (opt_json enc v) = Some v"
proof (cases v)
  case None
  then show ?thesis by (simp add: opt_of_json_def opt_json_def)
next
  case (Some x)
  with assms[of x] show ?thesis
    by (cases "enc x") (simp_all add: opt_of_json_def opt_json_def)
qed

lemma str_round_trip: "opt_of_json str_of_json (opt_json JStr v) = Some v"
  by (rule opt_round_trip) (simp_all add: str_of_json_def)

lemma float_round_trip: "opt_of_json float_of_json (opt_json JFloat v) = Some v"
  by (rule opt_round_trip) (simp_all add: float_of_json_def)

lemma status_round_trip: "status_of_json (JStr (status_value s)) = Some s"
  by (cases s) (simp_all add: status_of_json_def status_value_def)

lemma reason_round_trip:
  "opt_of_json reason_of_json (opt_json (\<lambda>r. JStr (reason_value r)) v) = Some v"
proof (rule opt_round_trip)
  fix r show "reason_of_json (JStr (reason_value r)) = Some r"
    by (cases r) (simp_all add: reason_of_json_def reason_value_def)
qed simp

lemma word_round_trip: "word_of_json (word_json w) = Some w"
  by (simp add: word_of_json_def word_json_def required_def optional_def str_of_json_def
      float_round_trip)

lemma transcript_round_trip:
  "opt_of_json transcript_of_json (opt_json transcript_json v) = Some v"
proof (rule opt_round_trip)
  fix d show "transcript_of_json (transcript_json d) = Some d"
    by (simp add: transcript_of_json_def transcript_json_def optional_def str_round_trip
        list_of_json_def those_map_decode[of word_of_json word_json, OF word_round_trip])
qed (simp add: transcript_json_def)

lemma metadata_round_trip:
  "opt_of_json metadata_of_json (opt_json metadata_json v) = Some v"
proof (rule opt_round_trip)
  fix md show "metadata_of_json (metadata_json md) = Some md"
    by (simp add: metadata_of_json_def metadata_json_def optional_def str_round_trip
        float_round_trip)
qed (simp add: metadata_json_def)

lemma job_round_trip: "job_of_json (job_json job) = Some job"
  by (simp add: job_of_json_def job_json_def required_def optional_def str_of_json_def
      int_of_json_def status_round_trip str_round_trip float_round_trip reason_round_trip
      transcript_round_trip metadata_round_trip)

lemma manifest_round_trip: "manifest_of_json (manifest_json m) = Some m"
  by (simp add: manifest_of_json_def manifest_json_def required_def optional_def str_of_json_def
      float_of_json_def count_of_json_def list_of_json_def
      those_map_decode[of job_of_json job_json, OF job_round_trip]
      those_map_decode[of str_of_json JStr] str_of_json_def)

lemma load_saved_manifest: "load_manifest (manifest_json m) = Inr (update_stats m)"
  by (simp add: load_manifest_def manifest_round_trip)

text \<open>
  C9: loading what was saved succeeds for every manifest. The loaded manifest has the same
  jobs in the same order, hence the same statuses and costs, and its aggregates are the ones
  recomputed from the jobs, whatever aggregates the saved copy held.
\<close>

theorem save_load_round_trip:
  "\<exists>m'. load_manifest (manifest_json m) = Inr m'
     \<and> length (jobs m') = length (jobs m)
     \<and> jobs m' = jobs m
     \<and> map status (jobs m') = map status (jobs m)
     \<and> map estimated_cost (jobs m') = map estimated_cost (jobs m)
     \<and> map actual_cost (jobs m') = map actual_cost (jobs m)
     \<and> total_jobs m' = length (jobs m)
     \<and> completed_jobs m' = length (filter (\<lambda>j. status j = COMPLETED) (jobs m))
     \<and> failed_jobs m' = length (filter (\<lambda>j. status j = FAILED) (jobs m))
     \<and> total_estimated_cost m' = sum_list (map (\<lambda>j. num (estimated_cost j)) (jobs m))
     \<and> total_actual_cost m' = sum_list (map (\<lambda>j. num (actual_cost j)) (jobs m))"
  by (simp add: load_saved_manifest update_stats_def)

theorem save_load_round_trip_witness:
  "failed_jobs (manifest (process_single_job env_download_fails sample_options 0 sample_state)) = 0
   \<and> (case load_manifest (manifest_json
          (manifest (process_single_job env_download_fails sample_options 0 sample_state))) of
        Inl e \<Rightarrow> False
      | Inr m' \<Rightarrow> map status (jobs m') = [FAILED] \<and> failed_jobs m' = 1)"
proof -
  define m where
    "m = manifest (process_single_job env_download_fails sample_options 0 sample_state)"
  have stale: "failed_jobs m = 0" unfolding m_def by code_simp
  have st: "map status (jobs m) = [FAILED]" unfolding m_def by code_simp
  from save_load_round_trip[of m] obtain m' where
    m': "load_manifest (manifest_json m) = Inr m'" "map status (jobs m') = map status (jobs m)"
      "failed_jobs m' = length (filter (\<lambda>j. status j = FAILED) (jobs m))"
    by blast
  have "length (filter (\<lambda>j. status j = FAILED) (jobs m))
      = length (filter (\<lambda>s. s = FAILED) (map status (jobs m)))"
    by (simp add: filter_map comp_def)
  with m' st stale show ?thesis by (simp add: m_def)
qed

section \<open>Failure reasons: supporting lemmas\<close>

lemma job_after_consistent:
  assumes "failure_reason job0 = None"
  shows "reason_consistent (job_after env options job0)"
  using job_after_reason[OF assms, of env options] job_after_status[of env options job0]
  by (auto simp: reason_consistent_def)

lemma mark_skipped_consistent:
  "reason_consistent job \<Longrightarrow> reason_consistent (mark_skipped job)"
  by (simp add: reason_consistent_def mark_skipped_def)

lemma list_all_update:
  "list_all P xs \<Longrightarrow> P x \<Longrightarrow> list_all P (xs[i := x])"
  using set_update_subset_insert[of xs i x] by (auto simp: list_all_iff)

lemma try_body_no_save:
  "list_all (\<lambda>e. case e of SaveManifest m \<Rightarrow> Q m | _ \<Rightarrow> True) (fst (snd (try_body env options job0)))"
  by (rule try_body_cases)
    (simp_all add: fail_with_def handle_job_failure_def split: option.splits)

lemma process_single_job_consistent:
  assumes "consistent_state st" and "i < length (jobs (manifest st))"
    and "failure_reason (jobs (manifest st) ! i) = None"
  shows "consistent_state (process_single_job env options i st)"
proof -
  let ?Q = "\<lambda>e. case e of SaveManifest m \<Rightarrow> list_all reason_consistent (jobs m) | _ \<Rightarrow> True"
  obtain job evs how where t: "try_body env options (jobs (manifest st) ! i) = (job, evs, how)"
    by (cases "try_body env options (jobs (manifest st) ! i)") auto
  have evs: "list_all ?Q evs"
    using try_body_no_save[of "\<lambda>m. list_all reason_consistent (jobs m)" env options
        "jobs (manifest st) ! i"]
    by (simp add: t)
  have js: "list_all reason_consistent (jobs (manifest (process_single_job env options i st)))"
    using assms(1) job_after_consistent[OF assms(3), of env options]
    by (simp add: jobs_process_single_job consistent_state_def list_all_update)
  have old: "list_all ?Q (trace st)" using assms(1) by (simp add: consistent_state_def)
  have "list_all ?Q (trace (process_single_job env options i st))"
  proof (cases how)
    case Returned
    then show ?thesis using old evs
      by (simp add: process_single_job_def t set_job_def Let_def)
  next
    case (Raised e)
    then show ?thesis using old evs
      by (simp add: process_single_job_def t set_job_def Let_def)
  next
    case ReachedUpdate
    show ?thesis
    proof (cases "env_save_ok env")
      case True
      have "trace (process_single_job env options i st)
          = trace st @ evs @ [SaveManifest (manifest (process_single_job env options i st))]"
        using True ReachedUpdate
        by (simp add: process_single_job_def t set_job_def save_manifest_def Let_def)
      then show ?thesis using old evs js by simp
    next
      case False
      then show ?thesis using old evs ReachedUpdate
        by (simp add: process_single_job_def t set_job_def Let_def)
    qed
  qed
  with js show ?thesis by (simp add: consistent_state_def)
qed

lemma length_process_single_job:
  "length (jobs (manifest (process_single_job env options i st))) = length (jobs (manifest st))"
  by (simp add: jobs_process_single_job)

lemma other_job_process_single_job:
  "j \<noteq> i \<Longrightarrow> jobs (manifest (process_single_job env options i st)) ! j = jobs (manifest st) ! j"
  by (simp add: jobs_process_single_job)

lemma batch_loop_consistent:
  assumes "batch_loop env options idxs st = Inr st'" and "consistent_state st"
    and "distinct idxs"
    and "\<forall>i \<in> set idxs. i < length (jobs (manifest st))
           \<and> failure_reason (jobs (manifest st) ! i) = None"
  shows "consistent_state st'"
  using assms
proof (induction idxs arbitrary: st)
  case Nil
  then show ?case by simp
next
  case (Cons i rest)
  from Cons.prems(1) obtain cap where cap: "options_budget_cap options = Some cap"
    by (cases "options_budget_cap options") auto
  show ?case
  proof (cases "cap \<le> total_actual_cost (manifest st)")
    case True
    with Cons.prems(1) cap obtain m where
      m: "mark_remaining_jobs_skipped (manifest st) (jobs (manifest st) ! i) = Inr m"
      and st': "st' = st\<lparr>manifest := m\<rparr>"
      by (auto split: sum.splits)
    from m obtain k where
      "jobs m = take k (jobs (manifest st)) @ map mark_skipped (drop k (jobs (manifest st)))"
      by (auto simp: mark_remaining_jobs_skipped_def split: option.splits)
    moreover have "list_all reason_consistent (take k (jobs (manifest st)))"
      "list_all reason_consistent (drop k (jobs (manifest st)))"
      using Cons.prems(2)
      by (auto simp: consistent_state_def list_all_iff dest: in_set_takeD in_set_dropD)
    ultimately have "list_all reason_consistent (jobs m)"
      by (auto simp: list_all_iff mark_skipped_consistent)
    with Cons.prems(2) show ?thesis by (simp add: st' consistent_state_def)
  next
    case False
    let ?s = "process_single_job (env i) options i st"
    have run: "batch_loop env options rest ?s = Inr st'"
      using Cons.prems(1) cap False by simp
    have i: "i < length (jobs (manifest st))" "failure_reason (jobs (manifest st) ! i) = None"
      using Cons.prems(4) by simp_all
    have ok: "consistent_state ?s"
      by (rule process_single_job_consistent[OF Cons.prems(2) i])
    have rest: "\<forall>j \<in> set rest. j < length (jobs (manifest ?s))
           \<and> failure_reason (jobs (manifest ?s) ! j) = None"
    proof
      fix j assume j: "j \<in> set rest"
      then have "j \<noteq> i" using Cons.prems(3) by auto
      with j Cons.prems(4) show "j < length (jobs (manifest ?s))
           \<and> failure_reason (jobs (manifest ?s) ! j) = None"
        by (simp add: length_process_single_job other_job_process_single_job)
    qed
    from Cons.IH[OF run ok _ rest] Cons.prems(3) show ?thesis by simp
  qed
qed

lemma initial_state_consistent:
  "consistent_state (initial_state cfg benv options)
   \<and> (\<forall>i < length (jobs (manifest (initial_state cfg benv options))).
        failure_reason (jobs (manifest (initial_state cfg benv options)) ! i) = None)"
proof -
  have "\<forall>job \<in> set (jobs (manifest (initial_state cfg benv options))).
      status job = PENDING \<and> failure_reason job = None"
    by (auto simp: initial_state_def save_manifest_def populate_jobs_def update_stats_def
        create_manifest_def new_job_def)
  then show ?thesis
    by (auto simp: consistent_state_def list_all_iff reason_consistent_def
        initial_state_def save_manifest_def)
qed

lemma perform_dry_run_consistent:
  assumes "\<forall>job \<in> set (jobs (manifest st)). failure_reason job = None"
    and "consistent_state st"
  shows "consistent_state (perform_dry_run env st)"
proof -
  have "reason_consistent (dry_run_job e job)" if "failure_reason job = None" for e job
    using that by (simp add: dry_run_job_def reason_consistent_def split: option.splits)
  then have "list_all reason_consistent (jobs (manifest (perform_dry_run env st)))"
    using assms(1)
    by (auto simp: perform_dry_run_def update_stats_def list_all_iff in_set_enumerate_eq)
  moreover have "list_all (\<lambda>e. case e of SaveManifest m \<Rightarrow> list_all reason_consistent (jobs m) | _ \<Rightarrow> True)
      (trace (perform_dry_run env st))"
    using assms(2) by (auto simp: perform_dry_run_def consistent_state_def list_all_iff)
  ultimately show ?thesis by (simp add: consistent_state_def)
qed

lemma finish_consistent:
  "consistent_state st \<Longrightarrow>
   consistent_state (save_manifest (st\<lparr>manifest := update_stats (manifest st)\<rparr>))"
  by (simp add: consistent_state_def save_manifest_def update_stats_def)

lemma process_batch_consistent:
  assumes "process_batch cfg benv options = Inr st"
  shows "consistent_state st"
proof -
  let ?st0 = "initial_state cfg benv options"
  note init = initial_state_consistent[of cfg benv options]
  show ?thesis
  proof (cases "dry_run options")
    case True
    have "\<forall>job \<in> set (jobs (manifest ?st0)). failure_reason job = None"
      using init by (auto simp: in_set_conv_nth)
    from perform_dry_run_consistent[OF this, of "job_envs benv"] init assms True
    show ?thesis by (auto simp: process_batch_def Let_def split: if_splits)
  next
    case False
    with assms obtain s where
      loop: "batch_loop (job_envs benv) options [0..<length (jobs (manifest ?st0))] ?st0 = Inr s"
      and st: "st = save_manifest (s\<lparr>manifest := update_stats (manifest s)\<rparr>)"
      by (auto simp: process_batch_def Let_def split: if_splits sum.splits)
    have "consistent_state s"
      using batch_loop_consistent[OF loop] init by simp
    then show ?thesis unfolding st by (rule finish_consistent)
  qed
qed

lemma retry_loop_consistent:
  assumes "consistent_state st" and "\<forall>i \<in> set sel. i < length (jobs (manifest st))"
  shows "consistent_state (retry_loop env options budget sel st)"
  using assms
proof (induction sel arbitrary: st)
  case Nil
  then show ?case by simp
next
  case (Cons i rest)
  show ?case
  proof (cases "budget \<le> total_actual_cost (manifest st)")
    case True
    with Cons.prems(1) show ?thesis by simp
  next
    case False
    let ?r = "set_job i (reset_for_retry (jobs (manifest st) ! i)) st"
    let ?s = "process_single_job (env i) options i ?r"
    have i: "i < length (jobs (manifest st))" using Cons.prems(2) by simp
    have "reason_consistent (reset_for_retry (jobs (manifest st) ! i))"
      by (simp add: reset_for_retry_def reason_consistent_def)
    then have r: "consistent_state ?r"
      using Cons.prems(1) by (simp add: consistent_state_def set_job_def list_all_update)
    have ri: "i < length (jobs (manifest ?r))" using i by (simp add: set_job_def)
    have rn: "failure_reason (jobs (manifest ?r) ! i) = None"
      using i by (simp add: set_job_def reset_for_retry_def)
    have s: "consistent_state ?s"
      by (rule process_single_job_consistent[OF r ri rn])
    have "\<forall>j \<in> set rest. j < length (jobs (manifest ?s))"
      using Cons.prems(2) by (simp add: length_process_single_job set_job_def)
    from Cons.IH[OF s this] False show ?thesis by simp
  qed
qed

lemma get_retryable_jobs_valid:
  "\<forall>i \<in> set (get_retryable_jobs cfg m). i < length (jobs m)"
  by (simp add: get_retryable_jobs_def)

lemma retry_failed_jobs_consistent:
  assumes "retry_failed_jobs cfg env save_ok st cap = Inr st'" and "consistent_state st"
  shows "consistent_state st'"
proof (cases "get_retryable_jobs cfg (manifest st) = []")
  case True
  with assms show ?thesis by (simp add: retry_failed_jobs_def)
next
  case False
  with assms(1) obtain fmts budget where
    st': "st' = save_manifest
       ((retry_loop env (retry_options fmts budget) budget (get_retryable_jobs cfg (manifest st)) st)
          \<lparr>manifest := update_stats (manifest (retry_loop env (retry_options fmts budget) budget
              (get_retryable_jobs cfg (manifest st)) st))\<rparr>)"
    by (auto simp: retry_failed_jobs_def Let_def split: option.splits if_splits)
  show ?thesis
    unfolding st'
    by (rule finish_consistent, rule retry_loop_consistent[OF assms(2) get_retryable_jobs_valid])
qed

lemma consistent_state_saved:
  "consistent_state st \<Longrightarrow> SaveManifest m \<in> set (trace st) \<Longrightarrow> list_all reason_consistent (jobs m)"
  by (force simp: consistent_state_def list_all_iff)

lemma reachable_consistent:
  "reachable cfg m \<Longrightarrow> list_all reason_consistent (jobs m)"
proof (induction rule: reachable.induct)
  case (batch benv options st)
  then show ?case using process_batch_consistent by (simp add: consistent_state_def)
next
  case (batch_saved benv options st m)
  then show ?case using process_batch_consistent consistent_state_saved by blast
next
  case (retry m env save_ok cap st)
  have "consistent_state \<lparr>manifest = m, trace = []\<rparr>"
    using retry.IH by (simp add: consistent_state_def)
  from retry_failed_jobs_consistent[OF retry.hyps(2) this]
  show ?case by (simp add: consistent_state_def)
next
  case (retry_saved m env save_ok cap st m')
  have "consistent_state \<lparr>manifest = m, trace = []\<rparr>"
    using retry_saved.IH by (simp add: consistent_state_def)
  from retry_failed_jobs_consistent[OF retry_saved.hyps(2) this] retry_saved.hyps(3)
  show ?case by (rule consistent_state_saved)
next
  case (reload m m')
  then show ?case by (simp add: load_saved_manifest update_stats_def) (auto simp: update_stats_def)
qed

section \<open>Failure reasons: properties\<close>

text \<open>
  C2, as stated, fails: the batch run over two URLs with a cap of 0.10 returns a manifest
  whose second job is \<open>SKIPPED\<close> and carries the failure reason \<open>budget_exceeded\<close>.
\<close>

theorem failure_reason_counterexample:
  "\<exists>m. reachable sample_config m
     \<and> (\<exists>job \<in> set (jobs m). status job = SKIPPED \<and> failure_reason job = Some BUDGET_EXCEEDED)"
proof -
  have "case process_batch sample_config batch_success sample_options of
          Inl e \<Rightarrow> False
        | Inr st \<Rightarrow> 1 < length (jobs (manifest st))
            \<and> status (jobs (manifest st) ! 1) = SKIPPED
            \<and> failure_reason (jobs (manifest st) ! 1) = Some BUDGET_EXCEEDED"
    by code_simp
  then obtain st where st: "process_batch sample_config batch_success sample_options = Inr st"
    and job: "1 < length (jobs (manifest st))" "status (jobs (manifest st) ! 1) = SKIPPED"
      "failure_reason (jobs (manifest st) ! 1) = Some BUDGET_EXCEEDED"
    by (cases "process_batch sample_config batch_success sample_options") auto
  have "reachable sample_config (manifest st)" using st by (rule reachable.batch)
  moreover have "jobs (manifest st) ! 1 \<in> set (jobs (manifest st))" using job(1) by simp
  ultimately show ?thesis using job(2,3) by blast
qed

text \<open>
  C2, amended: in every manifest the orchestrator returns or writes (batch run with or
  without budget cutoff, dry run, retry, reload of a saved manifest), a job's
  \<open>failure_reason\<close> is non-null if and only if its status is \<open>FAILED\<close> or \<open>SKIPPED\<close>.
\<close>

theorem failure_reason_invariant:
  assumes "reachable cfg m"
  shows "\<forall>job \<in> set (jobs m).
           (failure_reason job \<noteq> None) = (status job = FAILED \<or> status job = SKIPPED)"
  using reachable_consistent[OF assms] by (simp add: list_all_iff reason_consistent_def)

theorem failure_reason_invariant_witness:
  "\<exists>m. reachable sample_config m \<and> map status (jobs m) = [COMPLETED, SKIPPED]
     \<and> \<not> (\<exists>job \<in> set (jobs m).
            (failure_reason job \<noteq> None) \<noteq> (status job = FAILED \<or> status job = SKIPPED))"
proof -
  have "case process_batch sample_config batch_success sample_options of
          Inl e \<Rightarrow> False
        | Inr st \<Rightarrow> map status (jobs (manifest st)) = [COMPLETED, SKIPPED]"
    by code_simp
  then obtain st where st: "process_batch sample_config batch_success sample_options = Inr st"
    and js: "map status (jobs (manifest st)) = [COMPLETED, SKIPPED]"
    by (cases "process_batch sample_config batch_success sample_options") auto
  have r: "reachable sample_config (manifest st)" using st by (rule reachable.batch)
  from failure_reason_invariant[OF r] r js show ?thesis
    by (intro exI[of _ "manifest st"]) simp
qed

section \<open>Retry: supporting lemmas\<close>





section \<open>Retry: properties\<close>




end
